theory Spec2Isabelle
  imports Complex_Main "HOL-Library.Multiset"
begin

section \<open>Numbers\<close>

text \<open>
  Every time value of the program is a JavaScript Number, an IEEE 754 double. A double is
  read as the rational number it denotes; \<open>NaN\<close> and the infinities are outside the
  model. Each \<open>+\<close>, \<open>-\<close>, \<open>*\<close> and \<open>/\<close> of the note manager is the IEEE operation: the
  exact result rounded to the nearest double, a tie going to the even significand. A
  decimal literal of the source is the double nearest to it. Comparisons, negation and
  \<open>Math.abs\<close> are exact. Counters (score, combo, judgment counts, array indices) are
  natural numbers; they stay far below \<open>2^53\<close>, where the doubles hold them exactly.

  \<open>roundDouble\<close> rounds to 53 significant bits: it scales the number into
  \<open>[2^52, 2^53)\<close>, rounds there to the nearest integer, ties to even, and scales back. The
  exponent is not bounded, so overflow to infinity and the loss of bits below \<open>2^-1074\<close>
  are not followed; sums and differences of doubles never meet the second, and the
  program's times and ratios are far from both.

  The clock of the Conductor is read in exact arithmetic: what is stated of it is the
  order of its reads and the value they continue from, not their last digit.
\<close>

definition roundHalfEven :: "rat \<Rightarrow> int" where
  "roundHalfEven y =
     (let f = \<lfloor>y\<rfloor>; r = y - of_int f
      in if r < 1 / 2 then f else if 1 / 2 < r then f + 1 else if even f then f else f + 1)"

function roundPos :: "rat \<Rightarrow> rat" where
  "roundPos x =
     (if x \<le> 0 then 0
      else if x < 4503599627370496 then roundPos (2 * x) / 2
      else if 9007199254740992 \<le> x then roundPos (x / 2) * 2
      else of_int (roundHalfEven x))"
  by pat_completeness auto
termination
proof (relation "measure (\<lambda>x. if x < 4503599627370496 then nat \<lceil>4503599627370496 / x\<rceil>
                                  else nat \<lfloor>x / 4503599627370496\<rfloor>)")
  show "wf (measure (\<lambda>x::rat. if x < 4503599627370496 then nat \<lceil>4503599627370496 / x\<rceil>
                                  else nat \<lfloor>x / 4503599627370496\<rfloor>))"
    by simp
next
  fix x :: rat
  assume pos: "\<not> x \<le> 0" and small: "x < 4503599627370496"
  define y where "y = 4503599627370496 / x"
  have y1: "1 < y"
    using pos small by (simp add: y_def)
  have c2: "2 \<le> \<lceil>y\<rceil>"
    using y1 by (simp add: le_ceiling_iff)
  show "(2 * x, x) \<in> measure (\<lambda>x. if x < 4503599627370496 then nat \<lceil>4503599627370496 / x\<rceil>
                                  else nat \<lfloor>x / 4503599627370496\<rfloor>)"
  proof (cases "2 * x < 4503599627370496")
    case True
    have "4503599627370496 / (2 * x) = y / 2"
      by (simp add: y_def)
    moreover have "\<lceil>y / 2\<rceil> < \<lceil>y\<rceil>"
    proof -
      have "y / 2 \<le> of_int \<lceil>y\<rceil> - 1"
      proof (cases "y \<le> 2")
        case True
        then show ?thesis using c2 by linarith
      next
        case False
        have "y \<le> of_int \<lceil>y\<rceil>" by (rule le_of_int_ceiling)
        with False show ?thesis by linarith
      qed
      then show ?thesis by (simp add: ceiling_less_iff)
    qed
    ultimately show ?thesis
      using True small c2 pos by (simp add: y_def)
  next
    case False
    have "x / 2251799813685248 < 2"
      using small by simp
    then have "\<lfloor>x / 2251799813685248\<rfloor> < 2"
      by (simp add: floor_less_iff)
    then have "\<lfloor>x / 2251799813685248\<rfloor> < \<lceil>4503599627370496 / x\<rceil>"
      using c2 unfolding y_def by linarith
    then show ?thesis
      using False small c2 by (simp add: y_def)
  qed
next
  fix x :: rat
  assume pos: "\<not> x \<le> 0" and "\<not> x < 4503599627370496" and big: "9007199254740992 \<le> x"
  define z where "z = x / 4503599627370496"
  have z2: "2 \<le> z"
    using big by (simp add: z_def)
  have f2: "2 \<le> \<lfloor>z\<rfloor>"
    using z2 by (simp add: le_floor_iff)
  have "x / 2 / 4503599627370496 = z / 2"
    by (simp add: z_def)
  moreover have "\<lfloor>z / 2\<rfloor> < \<lfloor>z\<rfloor>"
  proof -
    have "z / 2 < of_int \<lfloor>z\<rfloor>"
    proof -
      have "z < of_int \<lfloor>z\<rfloor> + 1" by linarith
      moreover have "(2::rat) \<le> of_int \<lfloor>z\<rfloor>" using f2 by linarith
      ultimately show ?thesis by linarith
    qed
    then show ?thesis by (simp add: floor_less_iff)
  qed
  moreover have "\<not> x / 2 < 4503599627370496"
    using big by simp
  ultimately show "(x / 2, x) \<in> measure (\<lambda>x. if x < 4503599627370496 then nat \<lceil>4503599627370496 / x\<rceil>
                                  else nat \<lfloor>x / 4503599627370496\<rfloor>)"
    using big f2 by (simp add: z_def)
qed

declare roundPos.simps [simp del]

text \<open>Rounding of a number of either sign.\<close>

definition roundDouble :: "rat \<Rightarrow> rat" where
  "roundDouble x = (if x < 0 then - roundPos (- x) else roundPos x)"

text \<open>The four arithmetic operations on doubles. Division is used with a divisor other than 0.\<close>

definition js_add :: "rat \<Rightarrow> rat \<Rightarrow> rat" where
  "js_add a b = roundDouble (a + b)"

definition js_sub :: "rat \<Rightarrow> rat \<Rightarrow> rat" where
  "js_sub a b = roundDouble (a - b)"

definition js_mul :: "rat \<Rightarrow> rat \<Rightarrow> rat" where
  "js_mul a b = roundDouble (a * b)"

definition js_div :: "rat \<Rightarrow> rat \<Rightarrow> rat" where
  "js_div a b = roundDouble (a / b)"

section \<open>Conductor (src/js/conductor.js)\<close>

text \<open>
  The fields of \<open>class Conductor\<close>. \<open>startTime\<close> and \<open>performanceStartTime\<close> are
  \<open>null\<close> until the clock is started: \<open>None\<close> is \<open>null\<close>.
\<close>

record conductor =
  startTime :: "rat option"
  currentTime :: rat
  isRunning :: bool
  bpm :: rat
  timeOffset :: rat
  performanceStartTime :: "rat option"
  pausedTime :: rat

text \<open>The constructor.\<close>

definition Conductor_new :: conductor where
  "Conductor_new =
     \<lparr>startTime = None, currentTime = 0, isRunning = False, bpm = 120,
      timeOffset = 0, performanceStartTime = None, pausedTime = 0\<rparr>"

text \<open>
  \<open>start()\<close> reads two clocks of the environment, \<open>performance.now()\<close> and
  \<open>Date.now()\<close>; the model takes both readings as arguments.
\<close>

definition Conductor_start :: "rat \<Rightarrow> rat \<Rightarrow> conductor \<Rightarrow> conductor" where
  "Conductor_start perfNow dateNow c =
     (if isRunning c then c
      else
        let c1 = (if pausedTime c > 0
                  then c\<lparr>timeOffset := pausedTime c, pausedTime := 0\<rparr>
                  else c)
        in c1\<lparr>performanceStartTime := Some perfNow,
              startTime := Some dateNow,
              isRunning := True\<rparr>)"

definition Conductor_pause :: "conductor \<Rightarrow> conductor" where
  "Conductor_pause c =
     (if \<not> isRunning c then c
      else c\<lparr>pausedTime := currentTime c, isRunning := False\<rparr>)"

definition Conductor_reset :: "conductor \<Rightarrow> conductor" where
  "Conductor_reset c =
     c\<lparr>startTime := None, currentTime := 0, isRunning := False,
       performanceStartTime := None, timeOffset := 0, pausedTime := 0\<rparr>"

text \<open>
  \<open>update(timestamp)\<close>. In \<open>timestamp - this.performanceStartTime\<close> a \<open>null\<close> anchor
  converts to the number 0.
\<close>

definition Conductor_update :: "rat \<Rightarrow> conductor \<Rightarrow> conductor" where
  "Conductor_update timestamp c =
     (if \<not> isRunning c then c
      else
        let elapsedMs = timestamp - (case performanceStartTime c of None \<Rightarrow> 0 | Some p \<Rightarrow> p)
        in c\<lparr>currentTime := elapsedMs / 1000 + timeOffset c\<rparr>)"

definition Conductor_getCurrentTime :: "conductor \<Rightarrow> rat" where
  "Conductor_getCurrentTime c = currentTime c"

definition Conductor_setTimeOffset :: "rat \<Rightarrow> conductor \<Rightarrow> conductor" where
  "Conductor_setTimeOffset offset c = c\<lparr>timeOffset := offset\<rparr>"

text \<open>\<open>seekTo(time)\<close> reads \<open>performance.now()\<close>, passed as \<open>perfNow\<close>.\<close>

definition Conductor_seekTo :: "rat \<Rightarrow> rat \<Rightarrow> conductor \<Rightarrow> conductor" where
  "Conductor_seekTo perfNow time c =
     c\<lparr>timeOffset := time, performanceStartTime := Some perfNow, currentTime := time\<rparr>"

text \<open>
  The driver of the clock: a run of \<open>update\<close> calls, one per frame. \<open>Conductor_updates\<close>
  is the clock after the run, \<open>Conductor_readings\<close> the value \<open>getCurrentTime()\<close> returns
  after each call of the run, in order.
\<close>

fun Conductor_updates :: "rat list \<Rightarrow> conductor \<Rightarrow> conductor" where
  "Conductor_updates [] c = c"
| "Conductor_updates (t # ts) c = Conductor_updates ts (Conductor_update t c)"

fun Conductor_readings :: "rat list \<Rightarrow> conductor \<Rightarrow> rat list" where
  "Conductor_readings [] c = []"
| "Conductor_readings (t # ts) c =
     Conductor_getCurrentTime (Conductor_update t c) # Conductor_readings ts (Conductor_update t c)"

section \<open>Notes and the note manager (src/js/input.js)\<close>

text \<open>
  The judgment tiers are the four keys of \<open>JUDGMENT_WINDOWS\<close> and \<open>JUDGMENT_SCORES\<close>;
  the two tables are functions on the keys. Windows are in seconds; each is the double its
  decimal literal denotes.
\<close>

datatype judgmentTier = PERFECT | GREAT | GOOD | MISS

fun JUDGMENT_WINDOWS :: "judgmentTier \<Rightarrow> rat" where
  "JUDGMENT_WINDOWS PERFECT = roundDouble (50 / 1000)"
| "JUDGMENT_WINDOWS GREAT = roundDouble (100 / 1000)"
| "JUDGMENT_WINDOWS GOOD = roundDouble (150 / 1000)"
| "JUDGMENT_WINDOWS MISS = roundDouble (200 / 1000)"

declare JUDGMENT_WINDOWS.simps [simp del]

fun JUDGMENT_SCORES :: "judgmentTier \<Rightarrow> nat" where
  "JUDGMENT_SCORES PERFECT = 100"
| "JUDGMENT_SCORES GREAT = 80"
| "JUDGMENT_SCORES GOOD = 50"
| "JUDGMENT_SCORES MISS = 0"

text \<open>
  \<open>class Note\<close>: the fields that carry state. The DOM element and the fall speed only
  drive the drawing and are left out, with every statement that touches them.
\<close>

record Note =
  track :: nat
  hitTime :: rat
  isHit :: bool
  isMissed :: bool

definition Note_new :: "nat \<Rightarrow> rat \<Rightarrow> Note" where
  "Note_new trk t = \<lparr>track = trk, hitTime = t, isHit = False, isMissed = False\<rparr>"

definition Note_hit :: "judgmentTier \<Rightarrow> Note \<Rightarrow> Note" where
  "Note_hit j n = n\<lparr>isHit := True\<rparr>"

definition Note_miss :: "Note \<Rightarrow> Note" where
  "Note_miss n = n\<lparr>isMissed := True\<rparr>"

definition Note_update :: "rat \<Rightarrow> rat \<Rightarrow> Note \<Rightarrow> Note" where
  "Note_update now deltaTime n =
     (if isHit n \<or> isMissed n then n
      else
        let timeDiff = js_sub (hitTime n) now
        in if timeDiff < - JUDGMENT_WINDOWS MISS then Note_miss n else n)"

text \<open>\<open>judge\<close> returns the judgment (\<open>None\<close> is \<open>null\<close>) and the note as it leaves it.\<close>

definition Note_judge :: "rat \<Rightarrow> Note \<Rightarrow> judgmentTier option \<times> Note" where
  "Note_judge now n =
     (if isHit n \<or> isMissed n then (None, n)
      else
        let timeDiff = \<bar>js_sub (hitTime n) now\<bar>;
            jd = (if timeDiff \<le> JUDGMENT_WINDOWS PERFECT then Some PERFECT
                  else if timeDiff \<le> JUDGMENT_WINDOWS GREAT then Some GREAT
                  else if timeDiff \<le> JUDGMENT_WINDOWS GOOD then Some GOOD
                  else if timeDiff \<le> JUDGMENT_WINDOWS MISS then Some MISS
                  else None)
        in case jd of None \<Rightarrow> (None, n) | Some j \<Rightarrow> (Some j, Note_hit j n))"

text \<open>
  An entry \<open>{track, time}\<close> of a chart. Its \<open>track\<close> is the field \<open>chart_track\<close>: the
  name \<open>track\<close> is taken by the field of the note.
\<close>

record noteData =
  chart_track :: nat
  time :: rat

text \<open>
  \<open>class NoteManager\<close>. Notes are objects shared by two arrays: \<open>this.notes\<close> receives
  every note at its creation and loses none until \<open>reset\<close>, \<open>this.activeNotes\<close> holds
  references to some of them. So \<open>notes\<close> is the store of the note objects, in creation
  order, and \<open>activeNotes\<close> is a list of references, a reference being the position of
  the object in \<open>notes\<close>. The program has no reference that points outside the store;
  \<open>activeNotes_valid\<close> below says so of a state, and a statement that reads a note through
  a reference of an arbitrary state assumes it where it matters. \<open>judgmentCounts\<close> is the
  object with one counter per tier.
\<close>

record noteManager =
  "notes" :: "Note list"
  activeNotes :: "nat list"
  chart :: "noteData list"
  chartIndex :: nat
  score :: nat
  combo :: nat
  maxCombo :: nat
  judgmentCounts :: "judgmentTier \<Rightarrow> nat"
  spawnTime :: rat

definition NoteManager_new :: noteManager where
  "NoteManager_new =
     \<lparr>notes = [], activeNotes = [], chart = [], chartIndex = 0,
      score = 0, combo = 0, maxCombo = 0, judgmentCounts = (\<lambda>j. 0), spawnTime = 2\<rparr>"

text \<open>
  \<open>loadChart\<close>: \<open>Array.prototype.sort\<close> with the comparator \<open>a.time - b.time\<close> is a
  stable sort by \<open>time\<close>.
\<close>

definition loadChart :: "noteData list \<Rightarrow> noteManager \<Rightarrow> noteManager" where
  "loadChart ch s = s\<lparr>chart := sort_key time ch, chartIndex := 0\<rparr>"

text \<open>The \<open>while\<close> loop of \<open>spawnNotes\<close>; \<open>break\<close> and the loop test both end it.\<close>

function spawnNotes :: "rat \<Rightarrow> noteManager \<Rightarrow> noteManager" where
  "spawnNotes now s =
     (if chartIndex s < length (chart s) then
        (if time (chart s ! chartIndex s) \<le> js_add now (spawnTime s) then
           spawnNotes now
             (s\<lparr>notes := notes s @
                    [Note_new (chart_track (chart s ! chartIndex s)) (time (chart s ! chartIndex s))],
                activeNotes := activeNotes s @ [length (notes s)],
                chartIndex := chartIndex s + 1\<rparr>)
         else s)
      else s)"
  by pat_completeness auto
termination
  by (relation "measure (\<lambda>(now, s). length (chart s) - chartIndex s)") auto

declare spawnNotes.simps [simp del]

definition addJudgment :: "judgmentTier \<Rightarrow> noteManager \<Rightarrow> noteManager" where
  "addJudgment j s =
     (let s1 = s\<lparr>judgmentCounts := (judgmentCounts s)(j := judgmentCounts s j + 1)\<rparr>;
          s2 = s1\<lparr>score := score s1 + JUDGMENT_SCORES j\<rparr>
      in if j = MISS then s2\<lparr>combo := 0\<rparr>
         else
           let s3 = s2\<lparr>combo := combo s2 + 1\<rparr>
           in if combo s3 > maxCombo s3 then s3\<lparr>maxCombo := combo s3\<rparr> else s3)"

text \<open>
  The three steps of \<open>NoteManager.update\<close> after spawning: \<open>forEach\<close> calling
  \<open>note.update\<close>, the \<open>filter\<close> that rebuilds \<open>activeNotes\<close>, and \<open>checkAutoMiss\<close>.
\<close>

definition updateActiveNotes :: "rat \<Rightarrow> rat \<Rightarrow> noteManager \<Rightarrow> noteManager" where
  "updateActiveNotes now deltaTime s =
     s\<lparr>notes := fold (\<lambda>i ns. ns[i := Note_update now deltaTime (ns ! i)]) (activeNotes s) (notes s)\<rparr>"

definition filterActiveNotes :: "noteManager \<Rightarrow> noteManager" where
  "filterActiveNotes s =
     s\<lparr>activeNotes :=
         filter (\<lambda>i. \<not> isHit (notes s ! i) \<and> \<not> isMissed (notes s ! i)) (activeNotes s)\<rparr>"

definition checkAutoMiss_step :: "rat \<Rightarrow> nat \<Rightarrow> noteManager \<Rightarrow> noteManager" where
  "checkAutoMiss_step now i s =
     (if \<not> isHit (notes s ! i) \<and> \<not> isMissed (notes s ! i) then
        (let timeDiff = js_sub now (hitTime (notes s ! i))
         in if timeDiff > JUDGMENT_WINDOWS MISS
            then addJudgment MISS (s\<lparr>notes := (notes s)[i := Note_miss (notes s ! i)]\<rparr>)
            else s)
      else s)"

definition checkAutoMiss :: "rat \<Rightarrow> noteManager \<Rightarrow> noteManager" where
  "checkAutoMiss now s = fold (checkAutoMiss_step now) (activeNotes s) s"

definition NoteManager_update :: "rat \<Rightarrow> rat \<Rightarrow> noteManager \<Rightarrow> noteManager" where
  "NoteManager_update now deltaTime s =
     checkAutoMiss now (filterActiveNotes (updateActiveNotes now deltaTime (spawnNotes now s)))"

text \<open>
  \<open>NoteManager.hit\<close>. The search keeps the pair \<open>(closestNote, minTimeDiff)\<close>, which starts
  as \<open>(null, Infinity)\<close> and is always assigned together: \<open>None\<close> is that start value,
  \<open>Some (i, d)\<close> the note referenced by \<open>i\<close> with \<open>minTimeDiff = d\<close>.
\<close>

definition hit_step :: "nat \<Rightarrow> rat \<Rightarrow> noteManager \<Rightarrow> nat \<Rightarrow> (nat \<times> rat) option \<Rightarrow> (nat \<times> rat) option" where
  "hit_step trk now s i acc =
     (if track (notes s ! i) = trk \<and> \<not> isHit (notes s ! i) \<and> \<not> isMissed (notes s ! i) then
        (let timeDiff = \<bar>js_sub (hitTime (notes s ! i)) now\<bar>
         in if (case acc of None \<Rightarrow> True | Some (c, minTimeDiff) \<Rightarrow> timeDiff < minTimeDiff)
               \<and> timeDiff \<le> JUDGMENT_WINDOWS MISS
            then Some (i, timeDiff) else acc)
      else acc)"

definition closestNote :: "nat \<Rightarrow> rat \<Rightarrow> noteManager \<Rightarrow> (nat \<times> rat) option" where
  "closestNote trk now s = fold (hit_step trk now s) (activeNotes s) None"

definition NoteManager_hit :: "nat \<Rightarrow> rat \<Rightarrow> noteManager \<Rightarrow> judgmentTier option \<times> noteManager" where
  "NoteManager_hit trk now s =
     (case closestNote trk now s of
        None \<Rightarrow> (None, s)
      | Some (i, d) \<Rightarrow>
          (case Note_judge now (notes s ! i) of
             (None, n') \<Rightarrow> (None, s\<lparr>notes := (notes s)[i := n']\<rparr>)
           | (Some j, n') \<Rightarrow> (Some j, addJudgment j (s\<lparr>notes := (notes s)[i := n']\<rparr>))))"

definition NoteManager_reset :: "noteManager \<Rightarrow> noteManager" where
  "NoteManager_reset s =
     s\<lparr>notes := [], activeNotes := [], chartIndex := 0,
       score := 0, combo := 0, maxCombo := 0, judgmentCounts := (\<lambda>j. 0)\<rparr>"

text \<open>
  \<open>calculateAccuracy\<close> returns the number 100 when nothing was judged and otherwise the
  string \<open>Number.prototype.toFixed(2)\<close> makes: a value of two possible types.
\<close>

datatype jsValue = JSNumber rat | JSString string

text \<open>
  \<open>Number.prototype.toFixed(f)\<close> after ECMA-262: the sign is split off, \<open>n\<close> is the
  integer with \<open>n / 10^f\<close> nearest to the number, the larger one of two, its decimal
  digits are padded with zeros to \<open>f + 1\<close> characters and the point goes before the
  last \<open>f\<close> of them. Numbers of magnitude \<open>10^21\<close> and more, which ECMA-262 prints in
  exponent form, are not followed by the model; an accuracy lies between 0 and 100.
\<close>

definition digitChar :: "nat \<Rightarrow> char" where
  "digitChar d = ''0123456789'' ! d"

fun digits :: "nat \<Rightarrow> string" where
  "digits n = (if n < 10 then [digitChar n] else digits (n div 10) @ [digitChar (n mod 10)])"

declare digits.simps [simp del]

definition toFixed :: "nat \<Rightarrow> rat \<Rightarrow> string" where
  "toFixed f x =
     (let sgn = (if x < 0 then ''-'' else []);
          n = nat \<lfloor>\<bar>x\<bar> * 10 ^ f + 1 / 2\<rfloor>;
          m = digits n;
          m1 = (if length m \<le> f then replicate (f + 1 - length m) CHR ''0'' @ m else m);
          k = length m1
      in sgn @ (if f \<noteq> 0 then take (k - f) m1 @ ''.'' @ drop (k - f) m1 else m))"

definition calculateAccuracy :: "noteManager \<Rightarrow> jsValue" where
  "calculateAccuracy s =
     (let total = foldl (+) 0 (map (judgmentCounts s) [PERFECT, GREAT, GOOD, MISS])
      in if total = 0 then JSNumber 100
         else
           let weighted = judgmentCounts s PERFECT * 100 + judgmentCounts s GREAT * 80
                          + judgmentCounts s GOOD * 50
           in JSString (toFixed 2 (js_mul (js_div (of_nat weighted) (of_nat (total * 100))) 100)))"

section \<open>Notions used to state the properties\<close>

text \<open>
  The number a consumer reads off an accuracy value: the number itself, or the number a
  decimal string with an optional sign and an optional fraction denotes.
\<close>

definition digitValue :: "char \<Rightarrow> nat" where
  "digitValue c = length (takeWhile (\<lambda>d. d \<noteq> c) ''0123456789'')"

definition natOfDigits :: "string \<Rightarrow> nat" where
  "natOfDigits cs = foldl (\<lambda>a c. 10 * a + digitValue c) 0 cs"

definition decimalValue :: "string \<Rightarrow> rat" where
  "decimalValue cs =
     (let neg = (take 1 cs = ''-'');
          body = (if neg then drop 1 cs else cs);
          ip = takeWhile (\<lambda>c. c \<noteq> CHR ''.'') body;
          fp = drop 1 (dropWhile (\<lambda>c. c \<noteq> CHR ''.'') body);
          v = of_nat (natOfDigits ip) + of_nat (natOfDigits fp) / 10 ^ length fp
      in if neg then - v else v)"

fun numberOf :: "jsValue \<Rightarrow> rat" where
  "numberOf (JSNumber x) = x"
| "numberOf (JSString cs) = decimalValue cs"

text \<open>
  A well-formed manager: every reference in \<open>activeNotes\<close> points into the store. The
  constructor establishes it and every operation keeps it.
\<close>

definition activeNotes_valid :: "noteManager \<Rightarrow> bool" where
  "activeNotes_valid s = (\<forall>i \<in> set (activeNotes s). i < length (notes s))"

text \<open>
  A note is pending while it is neither hit nor missed. A candidate of \<open>hit(trk, now)\<close>
  is a pending note on lane \<open>trk\<close> whose distance from \<open>now\<close>, the absolute value of the
  double difference the program computes, is at most the Miss window.
\<close>

definition pending :: "Note \<Rightarrow> bool" where
  "pending n = (\<not> isHit n \<and> \<not> isMissed n)"

definition candidate :: "nat \<Rightarrow> rat \<Rightarrow> noteManager \<Rightarrow> nat \<Rightarrow> bool" where
  "candidate trk now s i =
     (track (notes s ! i) = trk \<and> pending (notes s ! i)
      \<and> \<bar>js_sub (hitTime (notes s ! i)) now\<bar> \<le> JUDGMENT_WINDOWS MISS)"

section \<open>Properties of the Conductor\<close>

lemma Conductor_updates_stopped:
  "\<not> isRunning c \<Longrightarrow> Conductor_updates ts c = c"
  by (induction ts) (simp_all add: Conductor_update_def)

lemma Conductor_pause_stopped: "\<not> isRunning (Conductor_pause c)"
  by (simp add: Conductor_pause_def)

lemma Conductor_update_running:
  "isRunning c \<Longrightarrow> isRunning (Conductor_update t c)"
  by (simp add: Conductor_update_def Let_def)

lemma Conductor_update_anchor:
  "performanceStartTime (Conductor_update t c) = performanceStartTime c
   \<and> timeOffset (Conductor_update t c) = timeOffset c"
  by (simp add: Conductor_update_def Let_def)

lemma Conductor_readings_running:
  "isRunning c \<Longrightarrow>
   Conductor_readings ts c =
     map (\<lambda>t. (t - (case performanceStartTime c of None \<Rightarrow> 0 | Some p \<Rightarrow> p)) / 1000
               + timeOffset c) ts"
proof (induction ts arbitrary: c)
  case Nil
  show ?case by simp
next
  case (Cons t ts)
  have run: "isRunning (Conductor_update t c)"
    using Cons.prems by (rule Conductor_update_running)
  have head: "Conductor_getCurrentTime (Conductor_update t c) =
      (t - (case performanceStartTime c of None \<Rightarrow> 0 | Some p \<Rightarrow> p)) / 1000 + timeOffset c"
    using Cons.prems
    by (simp add: Conductor_getCurrentTime_def Conductor_update_def Let_def)
  show ?case
    using Cons.IH [OF run] head by (simp add: Conductor_update_anchor)
qed

text \<open>
  C6. For every time \<open>t\<close> and every clock, \<open>seekTo(t)\<close> sets the offset to \<open>t\<close>, sets the
  anchor to the reading of \<open>performance.now()\<close> taken in the call, and sets the elapsed
  time to \<open>t\<close> at once: \<open>getCurrentTime()\<close> returns exactly \<open>t\<close> right after the call,
  before any \<open>update\<close>.
\<close>

theorem seekTo_immediate:
  "timeOffset (Conductor_seekTo perfNow t c) = t
   \<and> performanceStartTime (Conductor_seekTo perfNow t c) = Some perfNow
   \<and> currentTime (Conductor_seekTo perfNow t c) = t
   \<and> Conductor_getCurrentTime (Conductor_seekTo perfNow t c) = t"
  by (simp add: Conductor_seekTo_def Conductor_getCurrentTime_def)

text \<open>
  C8. For a running clock and a run of \<open>update\<close> calls whose timestamps increase strictly,
  with no other call in between, the values \<open>getCurrentTime()\<close> returns after the calls
  never decrease.
\<close>

theorem readings_nondecreasing:
  assumes "isRunning c" and "sorted_wrt (<) ts"
  shows "sorted (Conductor_readings ts c)"
proof -
  let ?f = "\<lambda>t. (t - (case performanceStartTime c of None \<Rightarrow> 0 | Some p \<Rightarrow> p)) / 1000
                 + timeOffset c"
  have mono: "?f a \<le> ?f b" if "a < b" for a b :: rat
    using that by (simp add: divide_right_mono)
  have "sorted_wrt (\<lambda>a b. ?f a \<le> ?f b) ts"
    using assms(2) mono by (rule sorted_wrt_mono_rel [rotated]) blast
  then have "sorted (map ?f ts)"
    by (simp add: sorted_wrt_map)
  then show ?thesis
    using Conductor_readings_running [OF assms(1)] by simp
qed

theorem readings_nondecreasing_witness:
  "isRunning (Conductor_start 1000 0 Conductor_new)
   \<and> sorted_wrt (<) [1016, 1033, 1050 :: rat]
   \<and> sorted (Conductor_readings [1016, 1033, 1050] (Conductor_start 1000 0 Conductor_new))
   \<and> Conductor_readings [1016, 1033, 1050] (Conductor_start 1000 0 Conductor_new)
       = [2 / 125, 33 / 1000, 1 / 20]"
proof -
  have run: "isRunning (Conductor_start 1000 0 Conductor_new)"
    by (simp add: Conductor_start_def Conductor_new_def)
  have inc: "sorted_wrt (<) [1016, 1033, 1050 :: rat]"
    by simp
  have vals: "Conductor_readings [1016, 1033, 1050] (Conductor_start 1000 0 Conductor_new)
       = [2 / 125, 33 / 1000, 1 / 20]"
    by (simp add: Conductor_start_def Conductor_new_def Conductor_update_def
        Conductor_getCurrentTime_def Let_def)
  show ?thesis
    using run inc vals readings_nondecreasing [OF run inc] by simp
qed

text \<open>
  C7, as stated, fails. A clock that carries a calibration offset and is paused before its
  first \<open>update\<close> is frozen at 0 while \<open>pausedTime\<close> is 0 too, so the guard
  \<open>pausedTime > 0\<close> of \<open>start\<close> keeps the offset: the first read after the resume is
  the offset, not the frozen value.
\<close>

theorem resume_counterexample:
  "Conductor_getCurrentTime
     (Conductor_updates [16, 33]
        (Conductor_pause (Conductor_start 0 0 (Conductor_setTimeOffset (1 / 2) Conductor_new)))) = 0
   \<and> Conductor_getCurrentTime
       (Conductor_update 5000
          (Conductor_start 5000 0
             (Conductor_updates [16, 33]
                (Conductor_pause
                   (Conductor_start 0 0 (Conductor_setTimeOffset (1 / 2) Conductor_new)))))) = 1 / 2"
  by (simp add: Conductor_getCurrentTime_def Conductor_update_def Conductor_start_def
      Conductor_pause_def Conductor_setTimeOffset_def Conductor_new_def Let_def)

text \<open>
  C7, amended. After \<open>pause()\<close>, any run of \<open>update\<close> calls leaves \<open>getCurrentTime()\<close>
  at the frozen value, for every clock. If the clock was running when \<open>pause()\<close> was
  called and the frozen value is positive or equal to the clock's offset, then after a
  later \<open>start()\<close>, which anchors at \<open>perfNow\<close>, every \<open>update(t)\<close> reads the frozen
  value plus the seconds elapsed since the anchor: the reads continue from exactly the
  frozen value.
\<close>

theorem pause_freezes_resume_continues:
  "Conductor_getCurrentTime (Conductor_updates ts (Conductor_pause c))
     = Conductor_getCurrentTime (Conductor_pause c)
   \<and> (isRunning c \<and> (0 < currentTime c \<or> timeOffset c = currentTime c) \<longrightarrow>
        Conductor_readings ts'
          (Conductor_start perfNow dateNow (Conductor_updates ts (Conductor_pause c)))
        = map (\<lambda>t. Conductor_getCurrentTime (Conductor_pause c) + (t - perfNow) / 1000) ts')"
proof (intro conjI impI)
  have frozen: "Conductor_updates ts (Conductor_pause c) = Conductor_pause c"
    using Conductor_pause_stopped by (rule Conductor_updates_stopped)
  show "Conductor_getCurrentTime (Conductor_updates ts (Conductor_pause c))
     = Conductor_getCurrentTime (Conductor_pause c)"
    by (simp add: frozen)
  assume pre: "isRunning c \<and> (0 < currentTime c \<or> timeOffset c = currentTime c)"
  let ?r = "Conductor_start perfNow dateNow (Conductor_pause c)"
  have run: "isRunning ?r"
    by (simp add: Conductor_start_def Conductor_pause_def Let_def)
  have anchor: "performanceStartTime ?r = Some perfNow"
    by (simp add: Conductor_start_def Conductor_pause_def Let_def)
  have offset: "timeOffset ?r = currentTime c"
    using pre by (auto simp add: Conductor_start_def Conductor_pause_def Let_def)
  have cur: "Conductor_getCurrentTime (Conductor_pause c) = currentTime c"
    by (simp add: Conductor_getCurrentTime_def Conductor_pause_def)
  show "Conductor_readings ts'
          (Conductor_start perfNow dateNow (Conductor_updates ts (Conductor_pause c)))
        = map (\<lambda>t. Conductor_getCurrentTime (Conductor_pause c) + (t - perfNow) / 1000) ts'"
    using Conductor_readings_running [OF run, of ts']
    by (simp add: frozen anchor offset cur add.commute)
qed

theorem pause_freezes_resume_continues_witness:
  "isRunning (Conductor_update 3000 (Conductor_start 1000 0 Conductor_new))
   \<and> 0 < currentTime (Conductor_update 3000 (Conductor_start 1000 0 Conductor_new))
   \<and> Conductor_getCurrentTime
       (Conductor_pause (Conductor_update 3000 (Conductor_start 1000 0 Conductor_new))) = 2
   \<and> Conductor_getCurrentTime
       (Conductor_updates [3016, 3033]
          (Conductor_pause (Conductor_update 3000 (Conductor_start 1000 0 Conductor_new)))) = 2
   \<and> Conductor_readings [9000, 9500]
       (Conductor_start 9000 0
          (Conductor_updates [3016, 3033]
             (Conductor_pause (Conductor_update 3000 (Conductor_start 1000 0 Conductor_new)))))
      = [2, 5 / 2]"
proof -
  let ?c = "Conductor_update 3000 (Conductor_start 1000 0 Conductor_new)"
  have pre: "isRunning ?c \<and> 0 < currentTime ?c"
    by (simp add: Conductor_update_def Conductor_start_def Conductor_new_def Let_def)
  have fr: "Conductor_getCurrentTime (Conductor_pause ?c) = 2"
    by (simp add: Conductor_getCurrentTime_def Conductor_pause_def Conductor_update_def
        Conductor_start_def Conductor_new_def Let_def)
  show ?thesis
    using pre fr pause_freezes_resume_continues [of "[3016, 3033]" ?c "[9000, 9500]" 9000 0]
    by simp
qed

section \<open>Rounding to a double\<close>

lemma roundPos_base:
  "4503599627370496 \<le> x \<Longrightarrow> x < 9007199254740992 \<Longrightarrow> roundPos x = of_int (roundHalfEven x)"
  by (subst roundPos.simps) simp

lemma roundPos_small:
  "0 < x \<Longrightarrow> x < 4503599627370496 \<Longrightarrow> roundPos x = roundPos (2 * x) / 2"
  by (subst roundPos.simps) simp

lemma roundPos_big:
  "9007199254740992 \<le> x \<Longrightarrow> roundPos x = roundPos (x / 2) * 2"
  by (subst roundPos.simps) simp

lemma roundPos_zero: "x \<le> 0 \<Longrightarrow> roundPos x = 0"
  by (subst roundPos.simps) simp

lemma roundPos_up:
  "0 < x \<Longrightarrow> 4503599627370496 \<le> x * 2 ^ k \<Longrightarrow> x * 2 ^ k < 9007199254740992 \<Longrightarrow>
   roundPos x = of_int (roundHalfEven (x * 2 ^ k)) / 2 ^ k"
proof (induction k arbitrary: x)
  case 0
  then show ?case by (simp add: roundPos_base)
next
  case (Suc k)
  have "1 \<le> (2::rat) ^ k" by simp
  then have "x * 2 \<le> x * 2 * 2 ^ k"
    using Suc.prems(1) by (simp add: mult_le_cancel_left1)
  then have small: "x < 4503599627370496"
    using Suc.prems(3) by simp
  have "roundPos (2 * x) = of_int (roundHalfEven (2 * x * 2 ^ k)) / 2 ^ k"
    using Suc.prems by (intro Suc.IH) (simp_all add: mult.assoc mult.left_commute)
  then show ?case
    using Suc.prems(1) small by (simp add: roundPos_small mult.assoc mult.left_commute)
qed

lemma roundPos_down:
  "4503599627370496 \<le> x / 2 ^ k \<Longrightarrow> x / 2 ^ k < 9007199254740992 \<Longrightarrow>
   roundPos x = of_int (roundHalfEven (x / 2 ^ k)) * 2 ^ k"
proof (induction k arbitrary: x)
  case 0
  then show ?case by (simp add: roundPos_base)
next
  case (Suc k)
  have k1: "1 \<le> (2::rat) ^ k" by simp
  have big: "9007199254740992 \<le> x"
  proof -
    have "4503599627370496 * 2 ^ Suc k \<le> x"
      using Suc.prems(1) by (simp add: pos_le_divide_eq)
    moreover have "(4503599627370496::rat) * 2 \<le> 4503599627370496 * 2 ^ Suc k"
      using k1 by simp
    ultimately show ?thesis by linarith
  qed
  have "roundPos (x / 2) = of_int (roundHalfEven (x / 2 / 2 ^ k)) * 2 ^ k"
    using Suc.prems by (intro Suc.IH) (simp_all add: field_simps)
  then show ?case
    using big by (simp add: roundPos_big field_simps)
qed

lemma roundHalfEven_close: "\<bar>of_int (roundHalfEven y) - y\<bar> \<le> 1 / 2"
proof -
  have "of_int \<lfloor>y\<rfloor> \<le> y" and "y < of_int \<lfloor>y\<rfloor> + 1"
    by linarith+
  then show ?thesis
    by (auto simp add: roundHalfEven_def Let_def abs_le_iff)
qed

lemma roundPos_close: "0 \<le> x \<Longrightarrow> \<bar>roundPos x - x\<bar> \<le> x / 9007199254740992"
proof (induction x rule: roundPos.induct)
  case (1 x)
  consider "x \<le> 0" | "0 < x" "x < 4503599627370496" | "9007199254740992 \<le> x"
    | "4503599627370496 \<le> x" "x < 9007199254740992"
    by linarith
  then show ?case
  proof cases
    case 1
    with "1.prems" show ?thesis by (simp add: roundPos_zero)
  next
    case 2
    have "\<bar>roundPos (2 * x) - 2 * x\<bar> \<le> 2 * x / 9007199254740992"
      using 2 by (intro "1.IH"(1)) simp_all
    then show ?thesis
      using 2 by (simp add: roundPos_small abs_le_iff field_simps)
  next
    case 3
    have "\<bar>roundPos (x / 2) - x / 2\<bar> \<le> x / 2 / 9007199254740992"
      using 3 by (intro "1.IH"(2)) simp_all
    then show ?thesis
      using 3 by (simp add: roundPos_big abs_le_iff field_simps)
  next
    case 4
    have "\<bar>of_int (roundHalfEven x) - x\<bar> \<le> 1 / 2"
      by (rule roundHalfEven_close)
    moreover have "1 / 2 \<le> x / 9007199254740992"
      using 4 by simp
    ultimately show ?thesis
      using 4 by (simp add: roundPos_base)
  qed
qed

lemma roundDouble_minus: "roundDouble (- x) = - roundDouble x"
  by (simp add: roundDouble_def roundPos_zero)

lemma roundDouble_close: "\<bar>roundDouble x - x\<bar> \<le> \<bar>x\<bar> / 9007199254740992"
proof (cases "x < 0")
  case True
  have "\<bar>roundPos (- x) - (- x)\<bar> \<le> (- x) / 9007199254740992"
    using True by (intro roundPos_close) simp
  with True show ?thesis
    by (simp add: roundDouble_def abs_le_iff)
next
  case False
  have "\<bar>roundPos x - x\<bar> \<le> x / 9007199254740992"
    using False by (intro roundPos_close) simp
  with False show ?thesis
    by (simp add: roundDouble_def)
qed

lemma roundDouble_nonneg:
  assumes "0 \<le> x"
  shows "0 \<le> roundDouble x"
proof -
  have "\<bar>roundDouble x - x\<bar> \<le> \<bar>x\<bar> / 9007199254740992"
    by (rule roundDouble_close)
  moreover have "\<bar>x\<bar> / 9007199254740992 \<le> x"
    using assms by simp
  ultimately show ?thesis
    by linarith
qed

lemma roundDouble_zero: "roundDouble 0 = 0"
  by (simp add: roundDouble_def roundPos_zero)

lemma floor_rat_numeral:
  "\<lfloor>numeral a / numeral b :: rat\<rfloor> = numeral a div numeral b"
  using floor_divide_of_int_eq [of "numeral a" "numeral b", where ?'a = rat] by simp

lemma roundDouble_up:
  "0 < x \<Longrightarrow> 4503599627370496 \<le> x * 2 ^ k \<Longrightarrow> x * 2 ^ k < 9007199254740992 \<Longrightarrow>
   roundDouble x = of_int (roundHalfEven (x * 2 ^ k)) / 2 ^ k"
  by (simp add: roundDouble_def roundPos_up)

lemma roundDouble_down:
  "4503599627370496 \<le> x / 2 ^ k \<Longrightarrow> x / 2 ^ k < 9007199254740992 \<Longrightarrow>
   roundDouble x = of_int (roundHalfEven (x / 2 ^ k)) * 2 ^ k"
proof -
  assume a: "4503599627370496 \<le> x / 2 ^ k" and b: "x / 2 ^ k < 9007199254740992"
  have "0 < x / 2 ^ k" using a by linarith
  then have "0 < x" by (simp add: zero_less_divide_iff)
  then show ?thesis
    using a b by (simp add: roundDouble_def roundPos_down)
qed

text \<open>The doubles of the decimal literals and of the sums and differences used below.\<close>

lemma window_values:
  "JUDGMENT_WINDOWS PERFECT = 3602879701896397 / 72057594037927936"
  "JUDGMENT_WINDOWS GREAT = 3602879701896397 / 36028797018963968"
  "JUDGMENT_WINDOWS GOOD = 5404319552844595 / 36028797018963968"
  "JUDGMENT_WINDOWS MISS = 3602879701896397 / 18014398509481984"
  by (simp_all add: JUDGMENT_WINDOWS.simps roundDouble_up [of _ 57] roundDouble_up [of _ 56]
      roundDouble_up [of _ 55] roundHalfEven_def Let_def floor_rat_numeral)

section \<open>Accuracy\<close>

lemma floor_rat_one_numeral:
  "\<lfloor>1 / numeral b :: rat\<rfloor> = 1 div numeral b"
  using floor_divide_of_int_eq [of 1 "numeral b", where ?'a = rat] by simp

lemma digits_small: "n < 10 \<Longrightarrow> digits n = [digitChar n]"
  by (subst digits.simps) simp

lemma digits_large: "\<not> n < 10 \<Longrightarrow> digits n = digits (n div 10) @ [digitChar (n mod 10)]"
  by (subst digits.simps) simp

lemma digit_cases:
  "d < (10::nat) \<Longrightarrow>
   d = 0 \<or> d = 1 \<or> d = 2 \<or> d = 3 \<or> d = 4 \<or> d = 5 \<or> d = 6 \<or> d = 7 \<or> d = 8 \<or> d = 9"
  by presburger

lemma digitValue_digitChar: "d < 10 \<Longrightarrow> digitValue (digitChar d) = d"
  by (drule digit_cases) (elim disjE, simp_all add: digitChar_def digitValue_def)

lemma digitChar_plain: "d < 10 \<Longrightarrow> digitChar d \<noteq> CHR ''.'' \<and> digitChar d \<noteq> CHR ''-''"
  by (drule digit_cases) (elim disjE, simp_all add: digitChar_def)

lemma natOfDigits_foldl:
  "foldl (\<lambda>a c. 10 * a + digitValue c) a cs = a * 10 ^ length cs + natOfDigits cs"
proof (induction cs arbitrary: a)
  case Nil
  show ?case by (simp add: natOfDigits_def)
next
  case (Cons c cs)
  show ?case
    using Cons.IH [of "10 * a + digitValue c"] Cons.IH [of "digitValue c"]
    by (simp add: natOfDigits_def algebra_simps)
qed

lemma natOfDigits_append:
  "natOfDigits (xs @ ys) = natOfDigits xs * 10 ^ length ys + natOfDigits ys"
  using natOfDigits_foldl [of "natOfDigits xs" ys] by (simp add: natOfDigits_def)

lemma natOfDigits_zeros: "natOfDigits (replicate k CHR ''0'' @ cs) = natOfDigits cs"
proof -
  have "natOfDigits (replicate k CHR ''0'') = 0"
    by (induction k) (simp_all add: natOfDigits_def digitValue_def)
  then show ?thesis by (simp add: natOfDigits_append)
qed

lemma natOfDigits_digits: "natOfDigits (digits n) = n"
proof (induction n rule: digits.induct)
  case (1 n)
  show ?case
  proof (cases "n < 10")
    case True
    then show ?thesis
      by (simp add: digits_small natOfDigits_def digitValue_digitChar)
  next
    case False
    have "natOfDigits [digitChar (n mod 10)] = n mod 10"
      by (simp add: natOfDigits_def digitValue_digitChar)
    with False "1.IH" show ?thesis
      by (simp add: digits_large natOfDigits_append)
  qed
qed

lemma digits_plain: "\<forall>c \<in> set (digits n). c \<noteq> CHR ''.'' \<and> c \<noteq> CHR ''-''"
proof (induction n rule: digits.induct)
  case (1 n)
  show ?case
  proof (cases "n < 10")
    case True
    then have "digits n = [digitChar n]"
      by (rule digits_small)
    with digitChar_plain [OF True] show ?thesis
      by simp
  next
    case False
    have "n mod 10 < 10" by simp
    then have "digitChar (n mod 10) \<noteq> CHR ''.'' \<and> digitChar (n mod 10) \<noteq> CHR ''-''"
      by (rule digitChar_plain)
    with False "1.IH" show ?thesis
      by (simp add: digits_large)
  qed
qed

lemma decimalValue_point:
  assumes "CHR ''.'' \<notin> set ip" and "CHR ''-'' \<notin> set ip"
  shows "decimalValue (ip @ CHR ''.'' # fp) =
    of_nat (natOfDigits ip) + of_nat (natOfDigits fp) / 10 ^ length fp"
proof -
  have neg: "take 1 (ip @ CHR ''.'' # fp) \<noteq> ''-''"
    using assms(2) by (cases ip) auto
  have tw: "takeWhile (\<lambda>c. c \<noteq> CHR ''.'') (ip @ CHR ''.'' # fp) = ip"
    using assms(1) by (induction ip) auto
  have dw: "dropWhile (\<lambda>c. c \<noteq> CHR ''.'') (ip @ CHR ''.'' # fp) = CHR ''.'' # fp"
    using assms(1) by (induction ip) auto
  show ?thesis
    using neg by (simp add: decimalValue_def Let_def tw dw)
qed

lemma decimalValue_toFixed2:
  assumes "0 \<le> x"
  shows "decimalValue (toFixed 2 x) = of_nat (nat \<lfloor>x * 100 + 1 / 2\<rfloor>) / 100"
proof -
  define n where "n = nat \<lfloor>x * 100 + 1 / 2\<rfloor>"
  define m1 where "m1 = (if length (digits n) \<le> 2
      then replicate (2 + 1 - length (digits n)) CHR ''0'' @ digits n else digits n)"
  have len: "3 \<le> length m1"
    by (simp add: m1_def)
  have plain: "CHR ''.'' \<notin> set m1 \<and> CHR ''-'' \<notin> set m1"
    using digits_plain [of n] by (auto simp add: m1_def)
  have val: "natOfDigits m1 = n"
    by (simp add: m1_def natOfDigits_zeros natOfDigits_digits)
  let ?ip = "take (length m1 - 2) m1" and ?fp = "drop (length m1 - 2) m1"
  have tf: "toFixed 2 x = ?ip @ CHR ''.'' # ?fp"
    using assms by (simp add: toFixed_def Let_def m1_def n_def)
  have ipp: "CHR ''.'' \<notin> set ?ip \<and> CHR ''-'' \<notin> set ?ip"
    using plain by (meson in_set_takeD)
  have lfp: "length ?fp = 2"
    using len by simp
  have "natOfDigits (?ip @ ?fp) = natOfDigits ?ip * 10 ^ length ?fp + natOfDigits ?fp"
    by (rule natOfDigits_append)
  then have split: "n = natOfDigits ?ip * 100 + natOfDigits ?fp"
    using val lfp by simp
  have "decimalValue (toFixed 2 x) = of_nat (natOfDigits ?ip) + of_nat (natOfDigits ?fp) / 10 ^ length ?fp"
    unfolding tf using ipp by (intro decimalValue_point) simp_all
  also have "\<dots> = of_nat n / 100"
    using lfp by (simp add: split)
  finally show ?thesis by (simp add: n_def)
qed


lemma calculateAccuracy_positive:
  assumes "judgmentCounts s PERFECT + judgmentCounts s GREAT + judgmentCounts s GOOD
           + judgmentCounts s MISS \<noteq> 0"
  shows "calculateAccuracy s =
    JSString (toFixed 2
      (js_mul
        (js_div
          (of_nat (judgmentCounts s PERFECT * 100 + judgmentCounts s GREAT * 80
                   + judgmentCounts s GOOD * 50))
          (of_nat ((judgmentCounts s PERFECT + judgmentCounts s GREAT + judgmentCounts s GOOD
                    + judgmentCounts s MISS) * 100)))
        100))"
  using assms by (simp add: calculateAccuracy_def Let_def)

lemma round_half_up_close:
  fixes x :: rat
  shows "\<bar>of_int \<lfloor>x * 100 + 1 / 2\<rfloor> / 100 - x\<bar> \<le> 1 / 200"
proof -
  define n where "n = \<lfloor>x * 100 + 1 / 2\<rfloor>"
  have lo: "of_int n \<le> x * 100 + 1 / 2"
    unfolding n_def by (rule of_int_floor_le)
  have "x * 100 + 1 / 2 < of_int (n + 1)"
    unfolding n_def by (rule floor_correct [THEN conjunct2])
  then have hi: "x * 100 + 1 / 2 < of_int n + 1"
    by simp
  have "\<bar>of_int n / 100 - x\<bar> \<le> 1 / 200"
    using lo hi by linarith
  then show ?thesis
    by (simp only: n_def)
qed

text \<open>
  The double the program computes for the quotient is within \<open>1e-13\<close> of the exact one:
  two roundings, each off by at most one part in \<open>2^53\<close>, of numbers not above 101.
\<close>

lemma quotient_double_close:
  fixes w t :: rat
  assumes "0 \<le> w" and "w \<le> t" and "0 < t"
  shows "0 \<le> js_mul (js_div w t) 100"
    and "\<bar>js_mul (js_div w t) 100 - w / t * 100\<bar> \<le> 1 / 10 ^ 13"
proof -
  define q where "q = w / t"
  define q1 where "q1 = roundDouble q"
  have q01: "0 \<le> q \<and> q \<le> 1"
    using assms by (simp add: q_def)
  have e1: "\<bar>q1 - q\<bar> \<le> \<bar>q\<bar> / 9007199254740992"
    unfolding q1_def by (rule roundDouble_close)
  have q1pos: "0 \<le> q1"
    unfolding q1_def using q01 by (intro roundDouble_nonneg) simp
  have e2: "\<bar>roundDouble (q1 * 100) - q1 * 100\<bar> \<le> \<bar>q1 * 100\<bar> / 9007199254740992"
    by (rule roundDouble_close)
  have "0 \<le> q1 * 100"
    using q1pos by simp
  then show "0 \<le> js_mul (js_div w t) 100"
    unfolding js_mul_def js_div_def q_def [symmetric] q1_def [symmetric]
    by (rule roundDouble_nonneg)
  have "\<bar>q\<bar> / 9007199254740992 \<le> 1 / 9007199254740992"
    using q01 by simp
  then have b1: "\<bar>q1 - q\<bar> \<le> 1 / 9007199254740992"
    using e1 by linarith
  have b2: "\<bar>q1 * 100\<bar> \<le> 101"
    using b1 q01 by linarith
  then have "\<bar>q1 * 100\<bar> / 9007199254740992 \<le> 101 / 9007199254740992"
    by simp
  then have b3: "\<bar>roundDouble (q1 * 100) - q1 * 100\<bar> \<le> 101 / 9007199254740992"
    using e2 by linarith
  have "\<bar>roundDouble (q1 * 100) - q * 100\<bar> \<le> 201 / 9007199254740992"
    using b1 b3 by linarith
  then have "\<bar>roundDouble (q1 * 100) - q * 100\<bar> \<le> 1 / 10 ^ 13"
    by simp
  then show "\<bar>js_mul (js_div w t) 100 - w / t * 100\<bar> \<le> 1 / 10 ^ 13"
    by (simp add: js_mul_def js_div_def q_def q1_def)
qed


text \<open>
  C9, as stated, fails where the quotient has more than two decimals: with one Perfect and
  two Misses the formula gives \<open>100 / 3\<close>, and \<open>calculateAccuracy\<close> returns \<open>33.33\<close>.
\<close>

theorem accuracy_counterexample:
  "calculateAccuracy (NoteManager_new\<lparr>judgmentCounts := (\<lambda>j. 0)(PERFECT := 1, MISS := 2)\<rparr>)
     = JSString ''33.33''
   \<and> numberOf (calculateAccuracy
         (NoteManager_new\<lparr>judgmentCounts := (\<lambda>j. 0)(PERFECT := 1, MISS := 2)\<rparr>))
       \<noteq> (100 * 1 + 80 * 0 + 50 * 0) / ((1 + 0 + 0 + 2) * 100) * 100"
proof -
  have q: "js_mul (js_div 100 300) 100 = 2345624805922133 / 70368744177664"
    by (simp add: js_mul_def js_div_def roundDouble_up [of _ 54] roundDouble_up [of _ 47]
        roundHalfEven_def Let_def floor_rat_numeral)
  have tf: "toFixed 2 (2345624805922133 / 70368744177664) = ''33.33''"
    by (simp add: toFixed_def Let_def floor_rat_numeral digits_small digits_large digitChar_def)
  have "calculateAccuracy
      (NoteManager_new\<lparr>judgmentCounts := (\<lambda>j. 0)(PERFECT := 1, MISS := 2)\<rparr>)
     = JSString (toFixed 2 (js_mul (js_div 100 300) 100))"
    by (simp add: calculateAccuracy_def NoteManager_new_def)
  then have str: "calculateAccuracy
      (NoteManager_new\<lparr>judgmentCounts := (\<lambda>j. 0)(PERFECT := 1, MISS := 2)\<rparr>)
     = JSString ''33.33''"
    by (simp only: q tf)
  have val: "decimalValue ''33.33'' = 3333 / 100"
    by (simp add: decimalValue_def natOfDigits_def digitValue_def Let_def)
  show ?thesis
    unfolding str by (simp add: val)
qed

text \<open>
  C9, amended. The accuracy is a function of the judgment counts alone. With no recorded
  judgment it is 100. Otherwise its value is the double the program computes for
  \<open>(100 * Perfect + 80 * Great + 50 * Good) / (total * 100) * 100\<close>, rounded by
  \<open>toFixed(2)\<close> to the nearest decimal with two fraction digits, the upper one of two:
  it is at most \<open>0.005\<close> away from that double, which is at most \<open>1e-13\<close> away from the
  exact quotient. Counts \<open>{Perfect: 1, Great: 1, Good: 0, Miss: 0}\<close> give \<open>90.00\<close>.
\<close>

theorem accuracy_rounded:
  "(judgmentCounts s' = judgmentCounts s \<longrightarrow> calculateAccuracy s' = calculateAccuracy s)
   \<and> (judgmentCounts s PERFECT + judgmentCounts s GREAT + judgmentCounts s GOOD
        + judgmentCounts s MISS = 0 \<longrightarrow> calculateAccuracy s = JSNumber 100)
   \<and> (judgmentCounts s PERFECT + judgmentCounts s GREAT + judgmentCounts s GOOD
        + judgmentCounts s MISS \<noteq> 0 \<longrightarrow>
        numberOf (calculateAccuracy s) =
          of_int \<lfloor>js_mul
                    (js_div
                      (of_nat (judgmentCounts s PERFECT * 100 + judgmentCounts s GREAT * 80
                               + judgmentCounts s GOOD * 50))
                      (of_nat ((judgmentCounts s PERFECT + judgmentCounts s GREAT
                                + judgmentCounts s GOOD + judgmentCounts s MISS) * 100)))
                    100 * 100 + 1 / 2\<rfloor> / 100
        \<and> \<bar>numberOf (calculateAccuracy s)
            - js_mul
                (js_div
                  (of_nat (judgmentCounts s PERFECT * 100 + judgmentCounts s GREAT * 80
                           + judgmentCounts s GOOD * 50))
                  (of_nat ((judgmentCounts s PERFECT + judgmentCounts s GREAT
                            + judgmentCounts s GOOD + judgmentCounts s MISS) * 100)))
                100\<bar>
          \<le> 1 / 200
        \<and> \<bar>js_mul
              (js_div
                (of_nat (judgmentCounts s PERFECT * 100 + judgmentCounts s GREAT * 80
                         + judgmentCounts s GOOD * 50))
                (of_nat ((judgmentCounts s PERFECT + judgmentCounts s GREAT
                          + judgmentCounts s GOOD + judgmentCounts s MISS) * 100)))
              100
            - (100 * of_nat (judgmentCounts s PERFECT) + 80 * of_nat (judgmentCounts s GREAT)
               + 50 * of_nat (judgmentCounts s GOOD))
              / (of_nat (judgmentCounts s PERFECT + judgmentCounts s GREAT
                         + judgmentCounts s GOOD + judgmentCounts s MISS) * 100) * 100\<bar>
          \<le> 1 / 10 ^ 13)
   \<and> (judgmentCounts s PERFECT = 1 \<and> judgmentCounts s GREAT = 1
        \<and> judgmentCounts s GOOD = 0 \<and> judgmentCounts s MISS = 0 \<longrightarrow>
        numberOf (calculateAccuracy s) = 90)"
proof (intro conjI impI)
  assume "judgmentCounts s' = judgmentCounts s"
  then show "calculateAccuracy s' = calculateAccuracy s"
    by (simp add: calculateAccuracy_def)
next
  assume "judgmentCounts s PERFECT + judgmentCounts s GREAT + judgmentCounts s GOOD
        + judgmentCounts s MISS = 0"
  then show "calculateAccuracy s = JSNumber 100"
    by (simp add: calculateAccuracy_def)
next
  assume c: "judgmentCounts s PERFECT = 1 \<and> judgmentCounts s GREAT = 1
        \<and> judgmentCounts s GOOD = 0 \<and> judgmentCounts s MISS = 0"
  have q: "js_mul (js_div 180 200) 100 = 90"
    by (simp add: js_mul_def js_div_def roundDouble_up [of _ 53] roundDouble_up [of _ 46]
        roundHalfEven_def Let_def floor_rat_numeral)
  have tf: "toFixed 2 90 = ''90.00''"
    by (simp add: toFixed_def Let_def floor_rat_numeral digits_small digits_large digitChar_def)
  have "calculateAccuracy s = JSString (toFixed 2 (js_mul (js_div 180 200) 100))"
    using c by (simp add: calculateAccuracy_def)
  then have "calculateAccuracy s = JSString ''90.00''"
    by (simp only: q tf)
  moreover have "decimalValue ''90.00'' = 90"
    by (simp add: decimalValue_def natOfDigits_def digitValue_def Let_def)
  ultimately show "numberOf (calculateAccuracy s) = 90"
    by simp
next
  assume pos: "judgmentCounts s PERFECT + judgmentCounts s GREAT + judgmentCounts s GOOD
        + judgmentCounts s MISS \<noteq> 0"
  define w :: rat where "w = of_nat (judgmentCounts s PERFECT * 100
      + judgmentCounts s GREAT * 80 + judgmentCounts s GOOD * 50)"
  define t :: rat where "t = of_nat ((judgmentCounts s PERFECT + judgmentCounts s GREAT
      + judgmentCounts s GOOD + judgmentCounts s MISS) * 100)"
  define y where "y = js_mul (js_div w t) 100"
  have w0: "0 \<le> w"
    by (simp add: w_def)
  have "judgmentCounts s PERFECT * 100 + judgmentCounts s GREAT * 80
      + judgmentCounts s GOOD * 50
      \<le> (judgmentCounts s PERFECT + judgmentCounts s GREAT
          + judgmentCounts s GOOD + judgmentCounts s MISS) * 100"
    by simp
  then have wt: "w \<le> t"
    unfolding w_def t_def by (rule of_nat_mono)
  have "0 < (judgmentCounts s PERFECT + judgmentCounts s GREAT
      + judgmentCounts s GOOD + judgmentCounts s MISS) * 100"
    using pos by simp
  then have t0: "0 < t"
    unfolding t_def by (simp only: of_nat_0_less_iff)
  have y0: "0 \<le> y" and yq: "\<bar>y - w / t * 100\<bar> \<le> 1 / 10 ^ 13"
    unfolding y_def using quotient_double_close [OF w0 wt t0] by blast+
  have str: "calculateAccuracy s = JSString (toFixed 2 y)"
    using calculateAccuracy_positive [OF pos] by (simp add: y_def w_def t_def)
  have fl: "0 \<le> \<lfloor>y * 100 + 1 / 2\<rfloor>"
    using y0 by simp
  have num: "numberOf (calculateAccuracy s) = of_int \<lfloor>y * 100 + 1 / 2\<rfloor> / 100"
    using decimalValue_toFixed2 [OF y0] fl by (simp add: str)
  have near: "\<bar>numberOf (calculateAccuracy s) - y\<bar> \<le> 1 / 200"
    unfolding num by (rule round_half_up_close)
  have exact: "w / t * 100
      = (100 * of_nat (judgmentCounts s PERFECT) + 80 * of_nat (judgmentCounts s GREAT)
               + 50 * of_nat (judgmentCounts s GOOD))
              / (of_nat (judgmentCounts s PERFECT + judgmentCounts s GREAT
                         + judgmentCounts s GOOD + judgmentCounts s MISS) * 100) * 100"
    by (simp add: w_def t_def mult.commute)
  show "numberOf (calculateAccuracy s) =
          of_int \<lfloor>js_mul
                    (js_div
                      (of_nat (judgmentCounts s PERFECT * 100 + judgmentCounts s GREAT * 80
                               + judgmentCounts s GOOD * 50))
                      (of_nat ((judgmentCounts s PERFECT + judgmentCounts s GREAT
                                + judgmentCounts s GOOD + judgmentCounts s MISS) * 100)))
                    100 * 100 + 1 / 2\<rfloor> / 100"
    using num unfolding y_def w_def t_def .
  show "\<bar>numberOf (calculateAccuracy s)
            - js_mul
                (js_div
                  (of_nat (judgmentCounts s PERFECT * 100 + judgmentCounts s GREAT * 80
                           + judgmentCounts s GOOD * 50))
                  (of_nat ((judgmentCounts s PERFECT + judgmentCounts s GREAT
                            + judgmentCounts s GOOD + judgmentCounts s MISS) * 100)))
                100\<bar>
          \<le> 1 / 200"
    using near unfolding y_def w_def t_def .
  show "\<bar>js_mul
              (js_div
                (of_nat (judgmentCounts s PERFECT * 100 + judgmentCounts s GREAT * 80
                         + judgmentCounts s GOOD * 50))
                (of_nat ((judgmentCounts s PERFECT + judgmentCounts s GREAT
                          + judgmentCounts s GOOD + judgmentCounts s MISS) * 100)))
              100
            - (100 * of_nat (judgmentCounts s PERFECT) + 80 * of_nat (judgmentCounts s GREAT)
               + 50 * of_nat (judgmentCounts s GOOD))
              / (of_nat (judgmentCounts s PERFECT + judgmentCounts s GREAT
                         + judgmentCounts s GOOD + judgmentCounts s MISS) * 100) * 100\<bar>
          \<le> 1 / 10 ^ 13"
    using yq [unfolded exact] unfolding y_def w_def t_def .
qed

theorem accuracy_rounded_witness:
  "judgmentCounts NoteManager_new PERFECT + judgmentCounts NoteManager_new GREAT
     + judgmentCounts NoteManager_new GOOD + judgmentCounts NoteManager_new MISS = 0
   \<and> calculateAccuracy NoteManager_new = JSNumber 100
   \<and> judgmentCounts (NoteManager_new\<lparr>judgmentCounts := (\<lambda>j. 0)(PERFECT := 1, GREAT := 1)\<rparr>)
        PERFECT = 1
   \<and> numberOf (calculateAccuracy
         (NoteManager_new\<lparr>judgmentCounts := (\<lambda>j. 0)(PERFECT := 1, GREAT := 1)\<rparr>)) = 90
   \<and> calculateAccuracy
         (NoteManager_new\<lparr>judgmentCounts := (\<lambda>j. 0)(PERFECT := 1, GREAT := 1), score := 180\<rparr>)
       = calculateAccuracy
           (NoteManager_new\<lparr>judgmentCounts := (\<lambda>j. 0)(PERFECT := 1, GREAT := 1)\<rparr>)
   \<and> js_mul (js_div 230 1600) 100 = 8092405580431359 / 562949953421312
   \<and> numberOf (calculateAccuracy
         (NoteManager_new\<lparr>judgmentCounts := (\<lambda>j. 0)(GREAT := 1, GOOD := 3, MISS := 12)\<rparr>))
       = 1437 / 100"
proof -
  let ?s = "NoteManager_new\<lparr>judgmentCounts := (\<lambda>j. 0)(PERFECT := 1, GREAT := 1)\<rparr>"
  let ?u = "NoteManager_new\<lparr>judgmentCounts := (\<lambda>j. 0)(GREAT := 1, GOOD := 3, MISS := 12)\<rparr>"
  have zero: "judgmentCounts NoteManager_new PERFECT + judgmentCounts NoteManager_new GREAT
     + judgmentCounts NoteManager_new GOOD + judgmentCounts NoteManager_new MISS = 0"
    by (simp add: NoteManager_new_def)
  have counts: "judgmentCounts ?s PERFECT = 1 \<and> judgmentCounts ?s GREAT = 1
      \<and> judgmentCounts ?s GOOD = 0 \<and> judgmentCounts ?s MISS = 0"
    by simp
  have same: "judgmentCounts (?s\<lparr>score := 180\<rparr>) = judgmentCounts ?s"
    by simp
  have ucounts: "judgmentCounts ?u PERFECT = 0 \<and> judgmentCounts ?u GREAT = 1
      \<and> judgmentCounts ?u GOOD = 3 \<and> judgmentCounts ?u MISS = 12"
    by simp
  have y: "js_mul (js_div 230 1600) 100 = 8092405580431359 / 562949953421312"
    by (simp add: js_mul_def js_div_def roundDouble_up [of _ 55] roundDouble_up [of _ 49]
        roundHalfEven_def Let_def floor_rat_numeral)
  have u: "numberOf (calculateAccuracy ?u) = 1437 / 100"
    using accuracy_rounded [of ?u ?u] by (simp add: y floor_rat_numeral)
  show ?thesis
    using zero counts same y u
      accuracy_rounded [of NoteManager_new NoteManager_new]
      accuracy_rounded [of "?s\<lparr>score := 180\<rparr>" ?s]
    by simp
qed

section \<open>Loading a chart and spawning notes\<close>

lemma spawnNotes_stop:
  "\<not> (chartIndex s < length (chart s) \<and> time (chart s ! chartIndex s) \<le> js_add now (spawnTime s))
   \<Longrightarrow> spawnNotes now s = s"
  by (subst spawnNotes.simps) auto

lemma spawnNotes_step:
  "chartIndex s < length (chart s) \<Longrightarrow> time (chart s ! chartIndex s) \<le> js_add now (spawnTime s) \<Longrightarrow>
   spawnNotes now s =
     spawnNotes now
       (s\<lparr>notes := notes s @
              [Note_new (chart_track (chart s ! chartIndex s)) (time (chart s ! chartIndex s))],
          activeNotes := activeNotes s @ [length (notes s)],
          chartIndex := chartIndex s + 1\<rparr>)"
  by (subst spawnNotes.simps) simp

lemma spawnNotes_eq:
  "spawnNotes now s =
     s\<lparr>notes := notes s @ map (\<lambda>e. Note_new (chart_track e) (time e))
              (takeWhile (\<lambda>e. time e \<le> js_add now (spawnTime s)) (drop (chartIndex s) (chart s))),
       activeNotes := activeNotes s @
         [length (notes s)..<length (notes s)
            + length (takeWhile (\<lambda>e. time e \<le> js_add now (spawnTime s)) (drop (chartIndex s) (chart s)))],
       chartIndex := chartIndex s
         + length (takeWhile (\<lambda>e. time e \<le> js_add now (spawnTime s)) (drop (chartIndex s) (chart s)))\<rparr>"
proof (induction now s rule: spawnNotes.induct)
  case (1 now s)
  show ?case
  proof (cases "chartIndex s < length (chart s) \<and> time (chart s ! chartIndex s) \<le> js_add now (spawnTime s)")
    case True
    let ?s' = "s\<lparr>notes := notes s @
              [Note_new (chart_track (chart s ! chartIndex s)) (time (chart s ! chartIndex s))],
          activeNotes := activeNotes s @ [length (notes s)],
          chartIndex := chartIndex s + 1\<rparr>"
    have dr: "drop (chartIndex s) (chart s) = chart s ! chartIndex s # drop (Suc (chartIndex s)) (chart s)"
      using True by (simp add: Cons_nth_drop_Suc)
    have step: "spawnNotes now s = spawnNotes now ?s'"
      using True by (simp add: spawnNotes_step)
    have ih: "spawnNotes now ?s' = ?s'\<lparr>notes := notes ?s' @ map (\<lambda>e. Note_new (chart_track e) (time e))
              (takeWhile (\<lambda>e. time e \<le> js_add now (spawnTime ?s')) (drop (chartIndex ?s') (chart ?s'))),
       activeNotes := activeNotes ?s' @
         [length (notes ?s')..<length (notes ?s')
            + length (takeWhile (\<lambda>e. time e \<le> js_add now (spawnTime ?s')) (drop (chartIndex ?s') (chart ?s')))],
       chartIndex := chartIndex ?s'
         + length (takeWhile (\<lambda>e. time e \<le> js_add now (spawnTime ?s')) (drop (chartIndex ?s') (chart ?s')))\<rparr>"
      using True by (intro "1.IH") simp_all
    show ?thesis
      unfolding step ih using True by (simp add: dr upt_conv_Cons del: upt_Suc)
  next
    case False
    then have tw: "takeWhile (\<lambda>e. time e \<le> js_add now (spawnTime s)) (drop (chartIndex s) (chart s)) = []"
      by (cases "chartIndex s < length (chart s)") (simp_all add: takeWhile_eq_Nil_iff hd_drop_conv_nth)
    show ?thesis
      using False by (simp add: spawnNotes_stop tw)
  qed
qed

lemma takeWhile_sorted_filter:
  "sorted (map f xs) \<Longrightarrow> takeWhile (\<lambda>e. f e \<le> (c::rat)) xs = filter (\<lambda>e. f e \<le> c) xs"
proof (induction xs)
  case Nil
  show ?case by simp
next
  case (Cons x xs)
  show ?case
  proof (cases "f x \<le> c")
    case True
    with Cons show ?thesis by simp
  next
    case False
    have "\<forall>y \<in> set xs. \<not> f y \<le> c"
      using Cons.prems False by auto
    then have "filter (\<lambda>e. f e \<le> c) xs = []"
      by (simp add: filter_empty_conv)
    with False show ?thesis by simp
  qed
qed

lemma sort_key_unique:
  assumes "mset ys = mset xs" and "distinct (map f xs)"
  shows "sort_key f ys = sort_key f xs"
  by (metis assms(1,2) distinct_map sort_key_eq_sort_key)

lemma spawn_sums:
  "js_add 1 2 = 3"
  "roundDouble (101 / 100) = 4548635623644201 / 4503599627370496"
  "js_add (4548635623644201 / 4503599627370496) 2 = 1694479359798149 / 562949953421312"
  "roundDouble (99 / 100) = 4458563631096791 / 4503599627370496"
  "js_add (4458563631096791 / 4503599627370496) 2 = 1683220360729723 / 562949953421312"
  "js_add (1 - 1 / 2 ^ 53) 2 = 3"
  by (simp_all add: js_add_def roundDouble_up [of _ 51] roundDouble_up [of _ 52]
      roundDouble_up [of _ 53] roundHalfEven_def Let_def floor_rat_numeral)

lemma example_chart:
  "chart (loadChart [\<lparr>chart_track = 0, time = 3\<rparr>, \<lparr>chart_track = 1, time = 3\<rparr>,
                     \<lparr>chart_track = 0, time = 5\<rparr>] NoteManager_new)
     = [\<lparr>chart_track = 0, time = 3\<rparr>, \<lparr>chart_track = 1, time = 3\<rparr>, \<lparr>chart_track = 0, time = 5\<rparr>]"
  "chartIndex (loadChart [\<lparr>chart_track = 0, time = 3\<rparr>, \<lparr>chart_track = 1, time = 3\<rparr>,
                     \<lparr>chart_track = 0, time = 5\<rparr>] NoteManager_new) = 0"
  "notes (loadChart [\<lparr>chart_track = 0, time = 3\<rparr>, \<lparr>chart_track = 1, time = 3\<rparr>,
                     \<lparr>chart_track = 0, time = 5\<rparr>] NoteManager_new) = []"
  "activeNotes (loadChart [\<lparr>chart_track = 0, time = 3\<rparr>, \<lparr>chart_track = 1, time = 3\<rparr>,
                     \<lparr>chart_track = 0, time = 5\<rparr>] NoteManager_new) = []"
  "spawnTime (loadChart [\<lparr>chart_track = 0, time = 3\<rparr>, \<lparr>chart_track = 1, time = 3\<rparr>,
                     \<lparr>chart_track = 0, time = 5\<rparr>] NoteManager_new) = 2"
  by (simp_all add: loadChart_def NoteManager_new_def)

lemma spawnNotes_notes:
  "notes (spawnNotes now s) =
     notes s @ map (\<lambda>e. Note_new (chart_track e) (time e))
       (takeWhile (\<lambda>e. time e \<le> js_add now (spawnTime s)) (drop (chartIndex s) (chart s)))"
  by (subst spawnNotes_eq) simp

lemma spawnNotes_active:
  "activeNotes (spawnNotes now s) =
     activeNotes s @ [length (notes s)..<length (notes (spawnNotes now s))]"
  by (subst (1 2) spawnNotes_eq) simp

lemma spawnNotes_index:
  "chartIndex (spawnNotes now s) =
     chartIndex s
     + length (takeWhile (\<lambda>e. time e \<le> js_add now (spawnTime s)) (drop (chartIndex s) (chart s)))"
  by (subst spawnNotes_eq) simp

lemma example_spawn:
  "notes (spawnNotes now
      (loadChart [\<lparr>chart_track = 0, time = 3\<rparr>, \<lparr>chart_track = 1, time = 3\<rparr>,
                  \<lparr>chart_track = 0, time = 5\<rparr>] NoteManager_new))
   = map (\<lambda>e. Note_new (chart_track e) (time e))
       (takeWhile (\<lambda>e. time e \<le> js_add now 2)
          [\<lparr>chart_track = 0, time = 3\<rparr>, \<lparr>chart_track = 1, time = 3\<rparr>, \<lparr>chart_track = 0, time = 5\<rparr>])"
  using spawnNotes_notes [of now "loadChart [\<lparr>chart_track = 0, time = 3\<rparr>,
      \<lparr>chart_track = 1, time = 3\<rparr>, \<lparr>chart_track = 0, time = 5\<rparr>] NoteManager_new",
      unfolded example_chart]
  by (simp only: drop_0 append_Nil)

text \<open>
  C2, as stated, fails at \<open>currentTime = 1.0\<close>: the test of \<open>spawnNotes\<close> is
  \<open>noteData.time <= currentTime + spawnTime\<close>, and \<open>3.0 <= 1.0 + 2.0\<close> holds, so both
  notes of time 3.0 are spawned already there.
\<close>

theorem spawn_boundary_counterexample:
  "notes (spawnNotes 1
      (loadChart [\<lparr>chart_track = 0, time = 3\<rparr>, \<lparr>chart_track = 1, time = 3\<rparr>,
                  \<lparr>chart_track = 0, time = 5\<rparr>] NoteManager_new))
     = [Note_new 0 3, Note_new 1 3]
   \<and> activeNotes (spawnNotes 1
      (loadChart [\<lparr>chart_track = 0, time = 3\<rparr>, \<lparr>chart_track = 1, time = 3\<rparr>,
                  \<lparr>chart_track = 0, time = 5\<rparr>] NoteManager_new)) \<noteq> []"
proof -
  have n: "notes (spawnNotes 1
      (loadChart [\<lparr>chart_track = 0, time = 3\<rparr>, \<lparr>chart_track = 1, time = 3\<rparr>,
                  \<lparr>chart_track = 0, time = 5\<rparr>] NoteManager_new))
     = [Note_new 0 3, Note_new 1 3]"
    unfolding example_spawn spawn_sums by simp
  have "activeNotes (spawnNotes 1
      (loadChart [\<lparr>chart_track = 0, time = 3\<rparr>, \<lparr>chart_track = 1, time = 3\<rparr>,
                  \<lparr>chart_track = 0, time = 5\<rparr>] NoteManager_new)) \<noteq> []"
    unfolding spawnNotes_active n example_chart by simp
  with n show ?thesis
    by (rule conjI)
qed

text \<open>
  C2, amended. \<open>spawnNotes\<close> spawns, in chart order, the unconsumed entries from the
  index on up to the first one whose time exceeds the double sum
  \<open>currentTime + spawnTime\<close>, appends a reference to each new note to \<open>activeNotes\<close>, and
  advances the index past them; the index never decreases and the chart is untouched. For
  a chart sorted by time, as \<open>loadChart\<close> stores it, these are exactly the unconsumed
  entries whose time is at most that sum. With the chart \<open>[(0, 3.0), (1, 3.0), (0, 5.0)]\<close>
  and look-ahead 2.0 both notes of time 3.0 are spawned at \<open>currentTime = 1.0\<close> as well as
  at 1.01, and no note is spawned exactly when the sum \<open>currentTime + 2.0\<close>, as a double,
  is below 3.0: so at 0.99, and not at the largest double below 1.0, where the sum rounds
  to 3.0.
\<close>

theorem spawnNotes_window:
  "notes (spawnNotes now s) =
     notes s @ map (\<lambda>e. Note_new (chart_track e) (time e))
       (takeWhile (\<lambda>e. time e \<le> js_add now (spawnTime s)) (drop (chartIndex s) (chart s)))
   \<and> activeNotes (spawnNotes now s) =
       activeNotes s @ [length (notes s)..<length (notes (spawnNotes now s))]
   \<and> chartIndex (spawnNotes now s) =
       chartIndex s
       + length (takeWhile (\<lambda>e. time e \<le> js_add now (spawnTime s)) (drop (chartIndex s) (chart s)))
   \<and> chartIndex s \<le> chartIndex (spawnNotes now s)
   \<and> chart (spawnNotes now s) = chart s
   \<and> (sorted (map time (chart s)) \<longrightarrow>
        takeWhile (\<lambda>e. time e \<le> js_add now (spawnTime s)) (drop (chartIndex s) (chart s))
        = filter (\<lambda>e. time e \<le> js_add now (spawnTime s)) (drop (chartIndex s) (chart s)))
   \<and> (notes (spawnNotes now
          (loadChart [\<lparr>chart_track = 0, time = 3\<rparr>, \<lparr>chart_track = 1, time = 3\<rparr>,
                      \<lparr>chart_track = 0, time = 5\<rparr>] NoteManager_new)) = [])
       = (js_add now 2 < 3)
   \<and> notes (spawnNotes 1
          (loadChart [\<lparr>chart_track = 0, time = 3\<rparr>, \<lparr>chart_track = 1, time = 3\<rparr>,
                      \<lparr>chart_track = 0, time = 5\<rparr>] NoteManager_new))
       = [Note_new 0 3, Note_new 1 3]
   \<and> notes (spawnNotes (roundDouble (101 / 100))
          (loadChart [\<lparr>chart_track = 0, time = 3\<rparr>, \<lparr>chart_track = 1, time = 3\<rparr>,
                      \<lparr>chart_track = 0, time = 5\<rparr>] NoteManager_new))
       = [Note_new 0 3, Note_new 1 3]
   \<and> notes (spawnNotes (roundDouble (99 / 100))
          (loadChart [\<lparr>chart_track = 0, time = 3\<rparr>, \<lparr>chart_track = 1, time = 3\<rparr>,
                      \<lparr>chart_track = 0, time = 5\<rparr>] NoteManager_new)) = []
   \<and> notes (spawnNotes (1 - 1 / 2 ^ 53)
          (loadChart [\<lparr>chart_track = 0, time = 3\<rparr>, \<lparr>chart_track = 1, time = 3\<rparr>,
                      \<lparr>chart_track = 0, time = 5\<rparr>] NoteManager_new))
       = [Note_new 0 3, Note_new 1 3]"
proof (intro conjI impI)
  show "notes (spawnNotes now s) =
     notes s @ map (\<lambda>e. Note_new (chart_track e) (time e))
       (takeWhile (\<lambda>e. time e \<le> js_add now (spawnTime s)) (drop (chartIndex s) (chart s)))"
    by (rule spawnNotes_notes)
  show "activeNotes (spawnNotes now s) =
       activeNotes s @ [length (notes s)..<length (notes (spawnNotes now s))]"
    by (rule spawnNotes_active)
  show "chartIndex (spawnNotes now s) =
       chartIndex s
       + length (takeWhile (\<lambda>e. time e \<le> js_add now (spawnTime s)) (drop (chartIndex s) (chart s)))"
    by (rule spawnNotes_index)
  show "chartIndex s \<le> chartIndex (spawnNotes now s)"
    by (subst spawnNotes_eq) simp
  show "chart (spawnNotes now s) = chart s"
    by (subst spawnNotes_eq) simp
next
  assume "sorted (map time (chart s))"
  then have "sorted (map time (drop (chartIndex s) (chart s)))"
    by (simp add: drop_map [symmetric] sorted_wrt_drop)
  then show "takeWhile (\<lambda>e. time e \<le> js_add now (spawnTime s)) (drop (chartIndex s) (chart s))
        = filter (\<lambda>e. time e \<le> js_add now (spawnTime s)) (drop (chartIndex s) (chart s))"
    by (rule takeWhile_sorted_filter)
next
  show "(notes (spawnNotes now
          (loadChart [\<lparr>chart_track = 0, time = 3\<rparr>, \<lparr>chart_track = 1, time = 3\<rparr>,
                      \<lparr>chart_track = 0, time = 5\<rparr>] NoteManager_new)) = [])
       = (js_add now 2 < 3)"
    unfolding example_spawn by auto
  show "notes (spawnNotes 1
          (loadChart [\<lparr>chart_track = 0, time = 3\<rparr>, \<lparr>chart_track = 1, time = 3\<rparr>,
                      \<lparr>chart_track = 0, time = 5\<rparr>] NoteManager_new))
       = [Note_new 0 3, Note_new 1 3]"
    unfolding example_spawn spawn_sums by simp
  show "notes (spawnNotes (roundDouble (101 / 100))
          (loadChart [\<lparr>chart_track = 0, time = 3\<rparr>, \<lparr>chart_track = 1, time = 3\<rparr>,
                      \<lparr>chart_track = 0, time = 5\<rparr>] NoteManager_new))
       = [Note_new 0 3, Note_new 1 3]"
    unfolding example_spawn spawn_sums by simp
  show "notes (spawnNotes (roundDouble (99 / 100))
          (loadChart [\<lparr>chart_track = 0, time = 3\<rparr>, \<lparr>chart_track = 1, time = 3\<rparr>,
                      \<lparr>chart_track = 0, time = 5\<rparr>] NoteManager_new)) = []"
    unfolding example_spawn spawn_sums by simp
  show "notes (spawnNotes (1 - 1 / 2 ^ 53)
          (loadChart [\<lparr>chart_track = 0, time = 3\<rparr>, \<lparr>chart_track = 1, time = 3\<rparr>,
                      \<lparr>chart_track = 0, time = 5\<rparr>] NoteManager_new))
       = [Note_new 0 3, Note_new 1 3]"
    unfolding example_spawn spawn_sums by simp
qed

theorem spawnNotes_window_witness:
  "sorted (map time (chart
      (loadChart [\<lparr>chart_track = 0, time = 3\<rparr>, \<lparr>chart_track = 1, time = 3\<rparr>,
                  \<lparr>chart_track = 0, time = 5\<rparr>] NoteManager_new)))
   \<and> js_add (roundDouble (99 / 100)) 2 < 3
   \<and> notes (spawnNotes (roundDouble (99 / 100))
        (loadChart [\<lparr>chart_track = 0, time = 3\<rparr>, \<lparr>chart_track = 1, time = 3\<rparr>,
                    \<lparr>chart_track = 0, time = 5\<rparr>] NoteManager_new)) = []
   \<and> chartIndex (spawnNotes (roundDouble (99 / 100))
        (loadChart [\<lparr>chart_track = 0, time = 3\<rparr>, \<lparr>chart_track = 1, time = 3\<rparr>,
                    \<lparr>chart_track = 0, time = 5\<rparr>] NoteManager_new)) = 0
   \<and> chartIndex (spawnNotes 4
        (loadChart [\<lparr>chart_track = 0, time = 3\<rparr>, \<lparr>chart_track = 1, time = 3\<rparr>,
                    \<lparr>chart_track = 0, time = 5\<rparr>] NoteManager_new)) = 3
   \<and> activeNotes (spawnNotes 4
        (loadChart [\<lparr>chart_track = 0, time = 3\<rparr>, \<lparr>chart_track = 1, time = 3\<rparr>,
                    \<lparr>chart_track = 0, time = 5\<rparr>] NoteManager_new)) = [0, 1, 2]"
proof -
  let ?s = "loadChart [\<lparr>chart_track = 0, time = 3\<rparr>, \<lparr>chart_track = 1, time = 3\<rparr>,
                  \<lparr>chart_track = 0, time = 5\<rparr>] NoteManager_new"
  have sorted: "sorted (map time (chart ?s))"
    by (simp add: loadChart_def)
  have low: "js_add (roundDouble (99 / 100)) 2 < 3"
    by (simp add: spawn_sums)
  have six: "js_add 4 2 = 6"
    by (simp add: js_add_def roundDouble_up [of _ 50] roundHalfEven_def Let_def)
  note w1 = spawnNotes_window [of "roundDouble (99 / 100)" ?s, unfolded example_chart]
  note w2 = spawnNotes_window [of 4 ?s, unfolded example_chart six]
  have idx0: "chartIndex (spawnNotes (roundDouble (99 / 100)) ?s) = 0"
    using w1 low by (simp add: spawn_sums)
  have n3: "length (notes (spawnNotes 4 ?s)) = 3"
    using w2 by simp
  have idx3: "chartIndex (spawnNotes 4 ?s) = 3"
    using w2 by simp
  have act: "activeNotes (spawnNotes 4 ?s) = [0, 1, 2]"
    using w2 unfolding n3 by (simp add: upt_conv_Cons)
  show ?thesis
    using sorted low w1 idx0 idx3 act by blast
qed

text \<open>
  C10. For every input chart, \<open>loadChart\<close> stores a permutation of it sorted ascending by
  time and resets the index to 0. Two charts that are permutations of each other with
  pairwise distinct times give the same stored chart and the same notes spawned from it.
  The notes spawned after loading are in ascending order of their hit time, whatever the
  order of the input.
\<close>

theorem loadChart_sorted:
  "sorted (map time (chart (loadChart ch s)))
   \<and> mset (chart (loadChart ch s)) = mset ch
   \<and> chartIndex (loadChart ch s) = 0
   \<and> (mset ch' = mset ch \<and> distinct (map time ch) \<longrightarrow>
        chart (loadChart ch' s') = chart (loadChart ch s)
        \<and> drop (length (notes s)) (notes (spawnNotes now (loadChart ch' s)))
          = drop (length (notes s)) (notes (spawnNotes now (loadChart ch s))))
   \<and> sorted (map hitTime (drop (length (notes s)) (notes (spawnNotes now (loadChart ch s)))))"
proof (intro conjI impI)
  show "sorted (map time (chart (loadChart ch s)))"
    by (simp add: loadChart_def)
  show "mset (chart (loadChart ch s)) = mset ch"
    by (simp add: loadChart_def)
  show "chartIndex (loadChart ch s) = 0"
    by (simp add: loadChart_def)
  have new: "drop (length (notes s)) (notes (spawnNotes now (loadChart c s))) =
      map (\<lambda>e. Note_new (chart_track e) (time e))
        (takeWhile (\<lambda>e. time e \<le> js_add now (spawnTime s)) (sort_key time c))" for c
    by (subst spawnNotes_eq) (simp add: loadChart_def)
  have "sorted (map time (takeWhile (\<lambda>e. time e \<le> js_add now (spawnTime s)) (sort_key time ch)
      @ dropWhile (\<lambda>e. time e \<le> js_add now (spawnTime s)) (sort_key time ch)))"
    by simp
  then have srt: "sorted (map time (takeWhile (\<lambda>e. time e \<le> js_add now (spawnTime s)) (sort_key time ch)))"
    by (simp only: map_append sorted_append)
  have hm: "map hitTime (map (\<lambda>e. Note_new (chart_track e) (time e)) es) = map time es"
    for es :: "noteData list"
    by (simp add: Note_new_def comp_def)
  show "sorted (map hitTime
      (drop (length (notes s)) (notes (spawnNotes now (loadChart ch s)))))"
    unfolding new hm by (fact srt)
  assume perm: "mset ch' = mset ch \<and> distinct (map time ch)"
  have eq: "sort_key time ch' = sort_key time ch"
    by (rule sort_key_unique) (simp_all add: perm)
  show "chart (loadChart ch' s') = chart (loadChart ch s)"
    by (simp add: loadChart_def eq)
  show "drop (length (notes s)) (notes (spawnNotes now (loadChart ch' s)))
          = drop (length (notes s)) (notes (spawnNotes now (loadChart ch s)))"
    by (simp only: new eq)
qed

theorem loadChart_sorted_witness:
  "mset [\<lparr>chart_track = 2, time = 1\<rparr>, \<lparr>chart_track = 0, time = 5\<rparr>, \<lparr>chart_track = 1, time = 3\<rparr>]
     = mset [\<lparr>chart_track = 0, time = 5\<rparr>, \<lparr>chart_track = 1, time = 3\<rparr>, \<lparr>chart_track = 2, time = 1\<rparr>]
   \<and> distinct (map time
        [\<lparr>chart_track = 0, time = 5\<rparr>, \<lparr>chart_track = 1, time = 3\<rparr>, \<lparr>chart_track = 2, time = 1\<rparr>])
   \<and> chart (loadChart
        [\<lparr>chart_track = 2, time = 1\<rparr>, \<lparr>chart_track = 0, time = 5\<rparr>, \<lparr>chart_track = 1, time = 3\<rparr>]
        NoteManager_new)
     = chart (loadChart
        [\<lparr>chart_track = 0, time = 5\<rparr>, \<lparr>chart_track = 1, time = 3\<rparr>, \<lparr>chart_track = 2, time = 1\<rparr>]
        NoteManager_new)
   \<and> chart (loadChart
        [\<lparr>chart_track = 0, time = 5\<rparr>, \<lparr>chart_track = 1, time = 3\<rparr>, \<lparr>chart_track = 2, time = 1\<rparr>]
        NoteManager_new)
     = [\<lparr>chart_track = 2, time = 1\<rparr>, \<lparr>chart_track = 1, time = 3\<rparr>, \<lparr>chart_track = 0, time = 5\<rparr>]"
proof -
  let ?a = "[\<lparr>chart_track = 2, time = 1\<rparr>, \<lparr>chart_track = 0, time = 5\<rparr>, \<lparr>chart_track = 1, time = 3\<rparr>]"
  let ?b = "[\<lparr>chart_track = 0, time = 5\<rparr>, \<lparr>chart_track = 1, time = 3\<rparr>, \<lparr>chart_track = 2, time = 1\<rparr>]"
  have perm: "mset ?a = mset ?b"
    by (simp add: add.commute add.left_commute)
  have dist: "distinct (map time ?b)"
    by simp
  have val: "chart (loadChart ?b NoteManager_new)
     = [\<lparr>chart_track = 2, time = 1\<rparr>, \<lparr>chart_track = 1, time = 3\<rparr>, \<lparr>chart_track = 0, time = 5\<rparr>]"
    by (simp add: loadChart_def)
  show ?thesis
    using perm dist val loadChart_sorted [of ?b NoteManager_new ?a NoteManager_new 0]
    by simp
qed

section \<open>Judging a press\<close>

lemma window_order:
  "JUDGMENT_WINDOWS PERFECT < JUDGMENT_WINDOWS GREAT"
  "JUDGMENT_WINDOWS GREAT < JUDGMENT_WINDOWS GOOD"
  "JUDGMENT_WINDOWS GOOD < JUDGMENT_WINDOWS MISS"
  by (simp_all add: window_values)

lemma hit_step_eq:
  "hit_step trk now s i acc =
     (if candidate trk now s i
         \<and> (case acc of None \<Rightarrow> True | Some (c, m) \<Rightarrow> \<bar>js_sub (hitTime (notes s ! i)) now\<bar> < m)
      then Some (i, \<bar>js_sub (hitTime (notes s ! i)) now\<bar>) else acc)"
  by (simp add: hit_step_def candidate_def pending_def Let_def)

lemma closestNote_fold:
  "(fold (hit_step trk now s) xs None = None \<longrightarrow> (\<forall>i \<in> set xs. \<not> candidate trk now s i))
   \<and> (\<forall>c d. fold (hit_step trk now s) xs None = Some (c, d) \<longrightarrow>
         c \<in> set xs \<and> candidate trk now s c \<and> d = \<bar>js_sub (hitTime (notes s ! c)) now\<bar>
         \<and> (\<forall>i \<in> set xs. candidate trk now s i \<longrightarrow> d \<le> \<bar>js_sub (hitTime (notes s ! i)) now\<bar>))"
proof (induction xs rule: rev_induct)
  case Nil
  show ?case by simp
next
  case (snoc x xs)
  let ?r = "fold (hit_step trk now s) xs None"
  let ?dx = "\<bar>js_sub (hitTime (notes s ! x)) now\<bar>"
  have step: "fold (hit_step trk now s) (xs @ [x]) None = hit_step trk now s x ?r"
    by simp
  show ?case
  proof (cases ?r)
    case None
    with snoc have none: "\<forall>i \<in> set xs. \<not> candidate trk now s i"
      by simp
    show ?thesis
    proof (cases "candidate trk now s x")
      case True
      have "hit_step trk now s x ?r = Some (x, ?dx)"
        using True None by (simp add: hit_step_eq)
      with True none show ?thesis
        unfolding step by auto
    next
      case False
      have "hit_step trk now s x ?r = None"
        using False None by (simp add: hit_step_eq)
      with False none show ?thesis
        unfolding step by simp
    qed
  next
    case (Some p)
    obtain c d where p: "p = (c, d)" by (cases p)
    from snoc Some p have "c \<in> set xs \<and> candidate trk now s c
      \<and> d = \<bar>js_sub (hitTime (notes s ! c)) now\<bar>
      \<and> (\<forall>i \<in> set xs. candidate trk now s i \<longrightarrow> d \<le> \<bar>js_sub (hitTime (notes s ! i)) now\<bar>)"
      by blast
    then have ih: "c \<in> set xs" "candidate trk now s c"
      "d = \<bar>js_sub (hitTime (notes s ! c)) now\<bar>"
      "\<forall>i \<in> set xs. candidate trk now s i \<longrightarrow> d \<le> \<bar>js_sub (hitTime (notes s ! i)) now\<bar>"
      by blast+
    show ?thesis
    proof (cases "candidate trk now s x \<and> ?dx < d")
      case True
      have res: "hit_step trk now s x ?r = Some (x, ?dx)"
        using True Some p by (simp add: hit_step_eq)
      have "\<forall>i \<in> set (xs @ [x]). candidate trk now s i \<longrightarrow> ?dx \<le> \<bar>js_sub (hitTime (notes s ! i)) now\<bar>"
        using True ih(4) by fastforce
      with True show ?thesis
        unfolding step res by simp
    next
      case False
      have res: "hit_step trk now s x ?r = Some (c, d)"
        using False Some p by (simp add: hit_step_eq)
      have "\<forall>i \<in> set (xs @ [x]). candidate trk now s i \<longrightarrow> d \<le> \<bar>js_sub (hitTime (notes s ! i)) now\<bar>"
        using False ih(4) by fastforce
      with ih(1-3) show ?thesis
        unfolding step res by simp
    qed
  qed
qed

lemma closestNote_None:
  "closestNote trk now s = None \<longleftrightarrow> (\<forall>i \<in> set (activeNotes s). \<not> candidate trk now s i)"
proof
  assume "closestNote trk now s = None"
  then show "\<forall>i \<in> set (activeNotes s). \<not> candidate trk now s i"
    using closestNote_fold [of trk now s "activeNotes s"] by (simp add: closestNote_def)
next
  assume none: "\<forall>i \<in> set (activeNotes s). \<not> candidate trk now s i"
  show "closestNote trk now s = None"
  proof (cases "closestNote trk now s")
    case None
    then show ?thesis .
  next
    case (Some p)
    obtain c d where "p = (c, d)" by (cases p)
    with Some have "c \<in> set (activeNotes s) \<and> candidate trk now s c"
      using closestNote_fold [of trk now s "activeNotes s"] by (simp add: closestNote_def)
    with none show ?thesis by blast
  qed
qed

lemma closestNote_Some:
  assumes "closestNote trk now s = Some (c, d)"
  shows "c \<in> set (activeNotes s)" and "candidate trk now s c"
    and "d = \<bar>js_sub (hitTime (notes s ! c)) now\<bar>"
    and "\<forall>i \<in> set (activeNotes s). candidate trk now s i \<longrightarrow> d \<le> \<bar>js_sub (hitTime (notes s ! i)) now\<bar>"
proof -
  have all: "c \<in> set (activeNotes s) \<and> candidate trk now s c
      \<and> d = \<bar>js_sub (hitTime (notes s ! c)) now\<bar>
      \<and> (\<forall>i \<in> set (activeNotes s). candidate trk now s i \<longrightarrow> d \<le> \<bar>js_sub (hitTime (notes s ! i)) now\<bar>)"
    using assms closestNote_fold [of trk now s "activeNotes s"]
    unfolding closestNote_def by blast
  show "c \<in> set (activeNotes s)" and "candidate trk now s c"
    and "d = \<bar>js_sub (hitTime (notes s ! c)) now\<bar>"
    and "\<forall>i \<in> set (activeNotes s). candidate trk now s i \<longrightarrow> d \<le> \<bar>js_sub (hitTime (notes s ! i)) now\<bar>"
    using all by blast+
qed

lemma Note_judge_pending:
  assumes "pending n" and "\<bar>js_sub (hitTime n) now\<bar> \<le> JUDGMENT_WINDOWS MISS"
  shows "Note_judge now n =
    (Some (if \<bar>js_sub (hitTime n) now\<bar> \<le> JUDGMENT_WINDOWS PERFECT then PERFECT
           else if \<bar>js_sub (hitTime n) now\<bar> \<le> JUDGMENT_WINDOWS GREAT then GREAT
           else if \<bar>js_sub (hitTime n) now\<bar> \<le> JUDGMENT_WINDOWS GOOD then GOOD else MISS),
     n\<lparr>isHit := True\<rparr>)"
  using assms by (simp add: Note_judge_def Note_hit_def pending_def Let_def)

lemma hit_selected:
  assumes "closestNote trk now s = Some (c, d)"
  shows "NoteManager_hit trk now s =
    (Some (if d \<le> JUDGMENT_WINDOWS PERFECT then PERFECT else if d \<le> JUDGMENT_WINDOWS GREAT then GREAT
           else if d \<le> JUDGMENT_WINDOWS GOOD then GOOD else MISS),
     addJudgment (if d \<le> JUDGMENT_WINDOWS PERFECT then PERFECT else if d \<le> JUDGMENT_WINDOWS GREAT then GREAT
                  else if d \<le> JUDGMENT_WINDOWS GOOD then GOOD else MISS)
       (s\<lparr>notes := (notes s)[c := (notes s ! c)\<lparr>isHit := True\<rparr>]\<rparr>))"
proof -
  have cand: "candidate trk now s c" and d: "d = \<bar>js_sub (hitTime (notes s ! c)) now\<bar>"
    using closestNote_Some [OF assms] by simp_all
  have "Note_judge now (notes s ! c) =
    (Some (if d \<le> JUDGMENT_WINDOWS PERFECT then PERFECT else if d \<le> JUDGMENT_WINDOWS GREAT then GREAT
           else if d \<le> JUDGMENT_WINDOWS GOOD then GOOD else MISS),
     (notes s ! c)\<lparr>isHit := True\<rparr>)"
    unfolding d using cand by (intro Note_judge_pending) (simp_all add: candidate_def)
  then show ?thesis
    using assms by (simp add: NoteManager_hit_def)
qed


lemma addJudgment_MISS:
  "addJudgment MISS s =
     s\<lparr>judgmentCounts := (judgmentCounts s)(MISS := judgmentCounts s MISS + 1),
       score := score s + 0, combo := 0\<rparr>"
  by (simp add: addJudgment_def Let_def)

lemma addJudgment_notes: "notes (addJudgment j s) = notes s"
  by (simp add: addJudgment_def Let_def)

lemma addJudgment_hit:
  "j \<noteq> MISS \<Longrightarrow>
   addJudgment j s =
     s\<lparr>judgmentCounts := (judgmentCounts s)(j := judgmentCounts s j + 1),
       score := score s + JUDGMENT_SCORES j, combo := combo s + 1,
       maxCombo := max (maxCombo s) (combo s + 1)\<rparr>"
  by (simp add: addJudgment_def Let_def max_def)

text \<open>
  C3. \<open>hit(trk, now)\<close> selects a note exactly when some active note is a candidate: a
  pending note on lane \<open>trk\<close> at most the Miss window (0.200 s) away from \<open>now\<close>. The
  selected note is such a candidate and no other candidate is nearer; it is the note
  \<open>hit\<close> marks as hit, and the judgment \<open>hit\<close> returns is the one it records. When no
  active note is a candidate, \<open>hit\<close> returns \<open>null\<close> and the manager is unchanged: score,
  combo, maxCombo, the judgment counts and every note stay as they were.
\<close>

theorem hit_nearest_or_nothing:
  "(closestNote trk now s = None) = (\<forall>i \<in> set (activeNotes s). \<not> candidate trk now s i)
   \<and> (\<forall>c d. closestNote trk now s = Some (c, d) \<longrightarrow>
      c \<in> set (activeNotes s) \<and> candidate trk now s c
      \<and> d = \<bar>js_sub (hitTime (notes s ! c)) now\<bar>
      \<and> (\<forall>i \<in> set (activeNotes s). candidate trk now s i \<longrightarrow>
            \<bar>js_sub (hitTime (notes s ! c)) now\<bar> \<le> \<bar>js_sub (hitTime (notes s ! i)) now\<bar>)
      \<and> (\<exists>j. NoteManager_hit trk now s =
            (Some j, addJudgment j (s\<lparr>notes := (notes s)[c := (notes s ! c)\<lparr>isHit := True\<rparr>]\<rparr>))))
   \<and> ((\<forall>i \<in> set (activeNotes s). \<not> candidate trk now s i) \<longrightarrow>
        NoteManager_hit trk now s = (None, s))"
proof (intro conjI allI impI)
  show "(closestNote trk now s = None) = (\<forall>i \<in> set (activeNotes s). \<not> candidate trk now s i)"
    by (rule closestNote_None)
next
  fix c d
  assume sel: "closestNote trk now s = Some (c, d)"
  show "c \<in> set (activeNotes s)" and "candidate trk now s c"
    and "d = \<bar>js_sub (hitTime (notes s ! c)) now\<bar>"
    using closestNote_Some [OF sel] by blast+
  show "\<forall>i \<in> set (activeNotes s). candidate trk now s i \<longrightarrow>
            \<bar>js_sub (hitTime (notes s ! c)) now\<bar> \<le> \<bar>js_sub (hitTime (notes s ! i)) now\<bar>"
    using closestNote_Some(3,4) [OF sel] by blast
  show "\<exists>j. NoteManager_hit trk now s =
            (Some j, addJudgment j (s\<lparr>notes := (notes s)[c := (notes s ! c)\<lparr>isHit := True\<rparr>]\<rparr>))"
    using hit_selected [OF sel] by blast
next
  assume none: "\<forall>i \<in> set (activeNotes s). \<not> candidate trk now s i"
  then have "closestNote trk now s = None"
    by (simp add: closestNote_None)
  then show "NoteManager_hit trk now s = (None, s)"
    by (simp add: NoteManager_hit_def)
qed

text \<open>
  C4. When \<open>hit(trk, now)\<close> selects a note, whose distance \<open>d\<close> from \<open>now\<close> is at most the
  Miss window, the judgment is the first window that holds \<open>d\<close>: Perfect up to 0.050, else
  Great up to 0.100, else Good up to 0.150, else Miss; the windows are the doubles of these
  decimals. The judgment is recorded: its count goes up by one, the score by 100, 80, 50
  or 0, and the combo goes up by one, maxCombo following it, or for a Miss returns to 0.
  So a distance of 0.03, as every distance within the Perfect window, gives Perfect,
  adds 100 to the score and 1 to the combo.
\<close>

theorem hit_classifies:
  assumes "closestNote trk now s = Some (c, d)"
  shows "d = \<bar>js_sub (hitTime (notes s ! c)) now\<bar> \<and> d \<le> JUDGMENT_WINDOWS MISS
    \<and> (d \<le> JUDGMENT_WINDOWS PERFECT \<longrightarrow>
         fst (NoteManager_hit trk now s) = Some PERFECT
         \<and> score (snd (NoteManager_hit trk now s)) = score s + 100
         \<and> combo (snd (NoteManager_hit trk now s)) = combo s + 1
         \<and> maxCombo (snd (NoteManager_hit trk now s)) = max (maxCombo s) (combo s + 1)
         \<and> judgmentCounts (snd (NoteManager_hit trk now s)) PERFECT = judgmentCounts s PERFECT + 1)
    \<and> (JUDGMENT_WINDOWS PERFECT < d \<and> d \<le> JUDGMENT_WINDOWS GREAT \<longrightarrow>
         fst (NoteManager_hit trk now s) = Some GREAT
         \<and> score (snd (NoteManager_hit trk now s)) = score s + 80
         \<and> combo (snd (NoteManager_hit trk now s)) = combo s + 1
         \<and> maxCombo (snd (NoteManager_hit trk now s)) = max (maxCombo s) (combo s + 1)
         \<and> judgmentCounts (snd (NoteManager_hit trk now s)) GREAT = judgmentCounts s GREAT + 1)
    \<and> (JUDGMENT_WINDOWS GREAT < d \<and> d \<le> JUDGMENT_WINDOWS GOOD \<longrightarrow>
         fst (NoteManager_hit trk now s) = Some GOOD
         \<and> score (snd (NoteManager_hit trk now s)) = score s + 50
         \<and> combo (snd (NoteManager_hit trk now s)) = combo s + 1
         \<and> maxCombo (snd (NoteManager_hit trk now s)) = max (maxCombo s) (combo s + 1)
         \<and> judgmentCounts (snd (NoteManager_hit trk now s)) GOOD = judgmentCounts s GOOD + 1)
    \<and> (JUDGMENT_WINDOWS GOOD < d \<longrightarrow>
         fst (NoteManager_hit trk now s) = Some MISS
         \<and> score (snd (NoteManager_hit trk now s)) = score s + 0
         \<and> combo (snd (NoteManager_hit trk now s)) = 0
         \<and> maxCombo (snd (NoteManager_hit trk now s)) = maxCombo s
         \<and> judgmentCounts (snd (NoteManager_hit trk now s)) MISS = judgmentCounts s MISS + 1)
    \<and> \<bar>JUDGMENT_WINDOWS PERFECT - 50 / 1000\<bar> \<le> 1 / 10 ^ 17
    \<and> \<bar>JUDGMENT_WINDOWS GREAT - 100 / 1000\<bar> \<le> 1 / 10 ^ 17
    \<and> \<bar>JUDGMENT_WINDOWS GOOD - 150 / 1000\<bar> \<le> 1 / 10 ^ 17
    \<and> \<bar>JUDGMENT_WINDOWS MISS - 200 / 1000\<bar> \<le> 2 / 10 ^ 17"
proof -
  have d: "d = \<bar>js_sub (hitTime (notes s ! c)) now\<bar>" and cand: "candidate trk now s c"
    using closestNote_Some [OF assms] by blast+
  have win: "d \<le> JUDGMENT_WINDOWS MISS"
    using cand d by (simp add: candidate_def)
  note res = hit_selected [OF assms]
  have perfect: "fst (NoteManager_hit trk now s) = Some PERFECT
         \<and> score (snd (NoteManager_hit trk now s)) = score s + 100
         \<and> combo (snd (NoteManager_hit trk now s)) = combo s + 1
         \<and> maxCombo (snd (NoteManager_hit trk now s)) = max (maxCombo s) (combo s + 1)
         \<and> judgmentCounts (snd (NoteManager_hit trk now s)) PERFECT = judgmentCounts s PERFECT + 1"
    if "d \<le> JUDGMENT_WINDOWS PERFECT"
    using that by (simp add: res addJudgment_hit)
  have great: "fst (NoteManager_hit trk now s) = Some GREAT
         \<and> score (snd (NoteManager_hit trk now s)) = score s + 80
         \<and> combo (snd (NoteManager_hit trk now s)) = combo s + 1
         \<and> maxCombo (snd (NoteManager_hit trk now s)) = max (maxCombo s) (combo s + 1)
         \<and> judgmentCounts (snd (NoteManager_hit trk now s)) GREAT = judgmentCounts s GREAT + 1"
    if "JUDGMENT_WINDOWS PERFECT < d \<and> d \<le> JUDGMENT_WINDOWS GREAT"
    using that by (simp add: res addJudgment_hit)
  have good: "fst (NoteManager_hit trk now s) = Some GOOD
         \<and> score (snd (NoteManager_hit trk now s)) = score s + 50
         \<and> combo (snd (NoteManager_hit trk now s)) = combo s + 1
         \<and> maxCombo (snd (NoteManager_hit trk now s)) = max (maxCombo s) (combo s + 1)
         \<and> judgmentCounts (snd (NoteManager_hit trk now s)) GOOD = judgmentCounts s GOOD + 1"
    if "JUDGMENT_WINDOWS GREAT < d \<and> d \<le> JUDGMENT_WINDOWS GOOD"
    using that window_order(1) by (simp add: res addJudgment_hit)
  have miss: "fst (NoteManager_hit trk now s) = Some MISS
         \<and> score (snd (NoteManager_hit trk now s)) = score s + 0
         \<and> combo (snd (NoteManager_hit trk now s)) = 0
         \<and> maxCombo (snd (NoteManager_hit trk now s)) = maxCombo s
         \<and> judgmentCounts (snd (NoteManager_hit trk now s)) MISS = judgmentCounts s MISS + 1"
    if "JUDGMENT_WINDOWS GOOD < d"
    using that window_order(1,2) by (simp add: res addJudgment_MISS)
  have vals: "\<bar>JUDGMENT_WINDOWS PERFECT - 50 / 1000\<bar> \<le> 1 / 10 ^ 17"
    "\<bar>JUDGMENT_WINDOWS GREAT - 100 / 1000\<bar> \<le> 1 / 10 ^ 17"
    "\<bar>JUDGMENT_WINDOWS GOOD - 150 / 1000\<bar> \<le> 1 / 10 ^ 17"
    "\<bar>JUDGMENT_WINDOWS MISS - 200 / 1000\<bar> \<le> 2 / 10 ^ 17"
    by (simp_all add: window_values)
  show ?thesis
    using d win perfect great good miss vals by blast
qed

text \<open>
  C5. On a well-formed manager, a press whose selected note is farther than the Good
  window (and, being selected, within the Miss window) is judged Miss and leaves the note
  hit, not missed. Every press that \<open>hit\<close> judges Miss leaves the combo at 0, maxCombo as it
  was (whatever the combo was before) and the score as it was, and counts one more Miss;
  so does \<open>addJudgment('MISS')\<close> wherever it is called.
\<close>

theorem late_press_resolves_as_hit:
  "(activeNotes_valid s \<and> closestNote trk now s = Some (c, d) \<and> JUDGMENT_WINDOWS GOOD < d \<longrightarrow>
      fst (NoteManager_hit trk now s) = Some MISS
      \<and> isHit (notes (snd (NoteManager_hit trk now s)) ! c)
      \<and> \<not> isMissed (notes (snd (NoteManager_hit trk now s)) ! c))
   \<and> (fst (NoteManager_hit trk now s) = Some MISS \<longrightarrow>
        combo (snd (NoteManager_hit trk now s)) = 0
        \<and> maxCombo (snd (NoteManager_hit trk now s)) = maxCombo s
        \<and> score (snd (NoteManager_hit trk now s)) = score s + 0
        \<and> judgmentCounts (snd (NoteManager_hit trk now s)) MISS = judgmentCounts s MISS + 1)
   \<and> combo (addJudgment MISS s) = 0
   \<and> maxCombo (addJudgment MISS s) = maxCombo s
   \<and> score (addJudgment MISS s) = score s + 0
   \<and> judgmentCounts (addJudgment MISS s) MISS = judgmentCounts s MISS + 1"
proof (intro conjI impI)
  assume pre: "activeNotes_valid s \<and> closestNote trk now s = Some (c, d)
      \<and> JUDGMENT_WINDOWS GOOD < d"
  then have sel: "closestNote trk now s = Some (c, d)" and late: "JUDGMENT_WINDOWS GOOD < d"
    by simp_all
  have "c \<in> set (activeNotes s)" and cand: "candidate trk now s c"
    using closestNote_Some [OF sel] by blast+
  then have len: "c < length (notes s)"
    using pre by (simp add: activeNotes_valid_def)
  have res: "NoteManager_hit trk now s =
      (Some MISS, addJudgment MISS (s\<lparr>notes := (notes s)[c := (notes s ! c)\<lparr>isHit := True\<rparr>]\<rparr>))"
    using late window_order(1,2) by (simp add: hit_selected [OF sel])
  show "fst (NoteManager_hit trk now s) = Some MISS"
    by (simp add: res)
  show "isHit (notes (snd (NoteManager_hit trk now s)) ! c)"
    using len by (simp add: res addJudgment_notes)
  show "\<not> isMissed (notes (snd (NoteManager_hit trk now s)) ! c)"
    using len cand by (simp add: res addJudgment_notes candidate_def pending_def)
next
  assume m: "fst (NoteManager_hit trk now s) = Some MISS"
  then obtain p where cl: "closestNote trk now s = Some p"
    by (cases "closestNote trk now s") (simp_all add: NoteManager_hit_def)
  obtain c' d' where sel: "closestNote trk now s = Some (c', d')"
    using cl by (cases p) simp
  from hit_selected [OF sel] m
  have res: "snd (NoteManager_hit trk now s) =
      addJudgment MISS (s\<lparr>notes := (notes s)[c' := (notes s ! c')\<lparr>isHit := True\<rparr>]\<rparr>)"
    by simp
  show "combo (snd (NoteManager_hit trk now s)) = 0"
    and "maxCombo (snd (NoteManager_hit trk now s)) = maxCombo s"
    and "score (snd (NoteManager_hit trk now s)) = score s + 0"
    and "judgmentCounts (snd (NoteManager_hit trk now s)) MISS = judgmentCounts s MISS + 1"
    by (simp_all add: res addJudgment_MISS)
qed (simp_all add: addJudgment_MISS)

lemma hit_values:
  "roundDouble (151 / 50) = 6800435437329449 / 2251799813685248"
  "js_sub 3 (6800435437329449 / 2251799813685248) = - (45035996273705 / 2251799813685248)"
  "roundDouble (303 / 100) = 6822953435466301 / 2251799813685248"
  "js_sub 3 (6822953435466301 / 2251799813685248) = - (67553994410557 / 2251799813685248)"
  "roundDouble (159 / 50) = 7160723407519089 / 2251799813685248"
  "js_sub 3 (7160723407519089 / 2251799813685248) = - (405323966463345 / 2251799813685248)"
  "roundDouble (319 / 100) = 7183241405655941 / 2251799813685248"
  "js_sub 3 (7183241405655941 / 2251799813685248) = - (427841964600197 / 2251799813685248)"
  "roundDouble (16 / 5) = 3602879701896397 / 1125899906842624"
  "js_sub 3 (3602879701896397 / 1125899906842624) = - (225179981368525 / 1125899906842624)"
  by (simp_all add: js_sub_def roundDouble_minus roundDouble_up [of _ 51]
      roundDouble_up [of _ 55] roundDouble_up [of _ 58] roundHalfEven_def Let_def
      floor_rat_numeral)

lemma example_state:
  "spawnNotes 1
     (loadChart [\<lparr>chart_track = 0, time = 3\<rparr>, \<lparr>chart_track = 1, time = 3\<rparr>,
                 \<lparr>chart_track = 0, time = 5\<rparr>] NoteManager_new)
   = \<lparr>notes = [\<lparr>track = 0, hitTime = 3, isHit = False, isMissed = False\<rparr>,
               \<lparr>track = 1, hitTime = 3, isHit = False, isMissed = False\<rparr>],
      activeNotes = [0, 1],
      chart = [\<lparr>chart_track = 0, time = 3\<rparr>, \<lparr>chart_track = 1, time = 3\<rparr>,
               \<lparr>chart_track = 0, time = 5\<rparr>],
      chartIndex = 2, score = 0, combo = 0, maxCombo = 0, judgmentCounts = (\<lambda>j. 0),
      spawnTime = 2\<rparr>"
  by (simp add: spawnNotes_eq loadChart_def NoteManager_new_def Note_new_def upt_conv_Cons
      spawn_sums)

theorem hit_nearest_or_nothing_witness:
  "\<not> candidate 2 (roundDouble (151 / 50))
       (spawnNotes 1
          (loadChart [\<lparr>chart_track = 0, time = 3\<rparr>, \<lparr>chart_track = 1, time = 3\<rparr>,
                      \<lparr>chart_track = 0, time = 5\<rparr>] NoteManager_new)) 0
   \<and> \<not> candidate 2 (roundDouble (151 / 50))
       (spawnNotes 1
          (loadChart [\<lparr>chart_track = 0, time = 3\<rparr>, \<lparr>chart_track = 1, time = 3\<rparr>,
                      \<lparr>chart_track = 0, time = 5\<rparr>] NoteManager_new)) 1
   \<and> NoteManager_hit 2 (roundDouble (151 / 50))
       (spawnNotes 1
          (loadChart [\<lparr>chart_track = 0, time = 3\<rparr>, \<lparr>chart_track = 1, time = 3\<rparr>,
                      \<lparr>chart_track = 0, time = 5\<rparr>] NoteManager_new))
     = (None,
        (spawnNotes 1
          (loadChart [\<lparr>chart_track = 0, time = 3\<rparr>, \<lparr>chart_track = 1, time = 3\<rparr>,
                      \<lparr>chart_track = 0, time = 5\<rparr>] NoteManager_new)))
   \<and> closestNote 0 (roundDouble (151 / 50))
       (spawnNotes 1
          (loadChart [\<lparr>chart_track = 0, time = 3\<rparr>, \<lparr>chart_track = 1, time = 3\<rparr>,
                      \<lparr>chart_track = 0, time = 5\<rparr>] NoteManager_new)) = Some (0, 45035996273705 / 2251799813685248)
   \<and> candidate 0 (roundDouble (151 / 50))
       (spawnNotes 1
          (loadChart [\<lparr>chart_track = 0, time = 3\<rparr>, \<lparr>chart_track = 1, time = 3\<rparr>,
                      \<lparr>chart_track = 0, time = 5\<rparr>] NoteManager_new)) 0
   \<and> (\<exists>j. NoteManager_hit 0 (roundDouble (151 / 50))
       (spawnNotes 1
          (loadChart [\<lparr>chart_track = 0, time = 3\<rparr>, \<lparr>chart_track = 1, time = 3\<rparr>,
                      \<lparr>chart_track = 0, time = 5\<rparr>] NoteManager_new))
       = (Some j, addJudgment j
           ((spawnNotes 1
          (loadChart [\<lparr>chart_track = 0, time = 3\<rparr>, \<lparr>chart_track = 1, time = 3\<rparr>,
                      \<lparr>chart_track = 0, time = 5\<rparr>] NoteManager_new))\<lparr>notes := (notes
       (spawnNotes 1
          (loadChart [\<lparr>chart_track = 0, time = 3\<rparr>, \<lparr>chart_track = 1, time = 3\<rparr>,
                      \<lparr>chart_track = 0, time = 5\<rparr>] NoteManager_new)))[0 := (notes
       (spawnNotes 1
          (loadChart [\<lparr>chart_track = 0, time = 3\<rparr>, \<lparr>chart_track = 1, time = 3\<rparr>,
                      \<lparr>chart_track = 0, time = 5\<rparr>] NoteManager_new)) ! 0)\<lparr>isHit := True\<rparr>]\<rparr>)))
   \<and> closestNote 1 (roundDouble (319 / 100))
       (spawnNotes 1
          (loadChart [\<lparr>chart_track = 0, time = 3\<rparr>, \<lparr>chart_track = 1, time = 3\<rparr>,
                      \<lparr>chart_track = 0, time = 5\<rparr>] NoteManager_new)) = Some (1, 427841964600197 / 2251799813685248)
   \<and> candidate 1 (roundDouble (319 / 100))
       (spawnNotes 1
          (loadChart [\<lparr>chart_track = 0, time = 3\<rparr>, \<lparr>chart_track = 1, time = 3\<rparr>,
                      \<lparr>chart_track = 0, time = 5\<rparr>] NoteManager_new)) 1
   \<and> closestNote 1 (roundDouble (16 / 5))
       (spawnNotes 1
          (loadChart [\<lparr>chart_track = 0, time = 3\<rparr>, \<lparr>chart_track = 1, time = 3\<rparr>,
                      \<lparr>chart_track = 0, time = 5\<rparr>] NoteManager_new)) = None
   \<and> NoteManager_hit 1 (roundDouble (16 / 5))
       (spawnNotes 1
          (loadChart [\<lparr>chart_track = 0, time = 3\<rparr>, \<lparr>chart_track = 1, time = 3\<rparr>,
                      \<lparr>chart_track = 0, time = 5\<rparr>] NoteManager_new))
     = (None,
        (spawnNotes 1
          (loadChart [\<lparr>chart_track = 0, time = 3\<rparr>, \<lparr>chart_track = 1, time = 3\<rparr>,
                      \<lparr>chart_track = 0, time = 5\<rparr>] NoteManager_new)))"
proof -
  let ?s = "(spawnNotes 1
          (loadChart [\<lparr>chart_track = 0, time = 3\<rparr>, \<lparr>chart_track = 1, time = 3\<rparr>,
                      \<lparr>chart_track = 0, time = 5\<rparr>] NoteManager_new))"
  have act: "activeNotes ?s = [0, 1]"
    unfolding example_state by simp
  have no0: "\<not> candidate 2 (roundDouble (151 / 50)) ?s 0"
    and no1: "\<not> candidate 2 (roundDouble (151 / 50)) ?s 1"
    unfolding example_state by (simp_all add: candidate_def)
  have none: "\<forall>i \<in> set (activeNotes ?s). \<not> candidate 2 (roundDouble (151 / 50)) ?s i"
    unfolding act using no0 no1 by simp
  have sel: "closestNote 0 (roundDouble (151 / 50)) ?s
      = Some (0, 45035996273705 / 2251799813685248)"
    unfolding example_state
    by (simp add: closestNote_def hit_step_def pending_def hit_values window_values)
  have edge: "closestNote 1 (roundDouble (319 / 100)) ?s
      = Some (1, 427841964600197 / 2251799813685248)"
    unfolding example_state
    by (simp add: closestNote_def hit_step_def pending_def hit_values window_values)
  have far0: "\<not> candidate 1 (roundDouble (16 / 5)) ?s 0"
    and far1: "\<not> candidate 1 (roundDouble (16 / 5)) ?s 1"
    unfolding example_state by (simp_all add: candidate_def hit_values window_values)
  have far: "\<forall>i \<in> set (activeNotes ?s). \<not> candidate 1 (roundDouble (16 / 5)) ?s i"
    unfolding act using far0 far1 by simp
  show ?thesis
    using no0 no1 none sel edge far
      hit_nearest_or_nothing [of 2 "roundDouble (151 / 50)" ?s]
      hit_nearest_or_nothing [of 0 "roundDouble (151 / 50)" ?s]
      hit_nearest_or_nothing [of 1 "roundDouble (319 / 100)" ?s]
      hit_nearest_or_nothing [of 1 "roundDouble (16 / 5)" ?s]
    by blast
qed

theorem hit_classifies_witness:
  "closestNote 0 (roundDouble (303 / 100))
       (spawnNotes 1
          (loadChart [\<lparr>chart_track = 0, time = 3\<rparr>, \<lparr>chart_track = 1, time = 3\<rparr>,
                      \<lparr>chart_track = 0, time = 5\<rparr>] NoteManager_new)) = Some (0, 67553994410557 / 2251799813685248)
   \<and> 67553994410557 / 2251799813685248 \<le> JUDGMENT_WINDOWS PERFECT
   \<and> fst (NoteManager_hit 0 (roundDouble (303 / 100))
       (spawnNotes 1
          (loadChart [\<lparr>chart_track = 0, time = 3\<rparr>, \<lparr>chart_track = 1, time = 3\<rparr>,
                      \<lparr>chart_track = 0, time = 5\<rparr>] NoteManager_new))) = Some PERFECT
   \<and> score (snd (NoteManager_hit 0 (roundDouble (303 / 100))
       (spawnNotes 1
          (loadChart [\<lparr>chart_track = 0, time = 3\<rparr>, \<lparr>chart_track = 1, time = 3\<rparr>,
                      \<lparr>chart_track = 0, time = 5\<rparr>] NoteManager_new)))) = 100
   \<and> combo (snd (NoteManager_hit 0 (roundDouble (303 / 100))
       (spawnNotes 1
          (loadChart [\<lparr>chart_track = 0, time = 3\<rparr>, \<lparr>chart_track = 1, time = 3\<rparr>,
                      \<lparr>chart_track = 0, time = 5\<rparr>] NoteManager_new)))) = 1
   \<and> maxCombo (snd (NoteManager_hit 0 (roundDouble (303 / 100))
       (spawnNotes 1
          (loadChart [\<lparr>chart_track = 0, time = 3\<rparr>, \<lparr>chart_track = 1, time = 3\<rparr>,
                      \<lparr>chart_track = 0, time = 5\<rparr>] NoteManager_new)))) = 1
   \<and> judgmentCounts (snd (NoteManager_hit 0 (roundDouble (303 / 100))
       (spawnNotes 1
          (loadChart [\<lparr>chart_track = 0, time = 3\<rparr>, \<lparr>chart_track = 1, time = 3\<rparr>,
                      \<lparr>chart_track = 0, time = 5\<rparr>] NoteManager_new)))) PERFECT = 1"
proof -
  let ?s = "(spawnNotes 1
          (loadChart [\<lparr>chart_track = 0, time = 3\<rparr>, \<lparr>chart_track = 1, time = 3\<rparr>,
                      \<lparr>chart_track = 0, time = 5\<rparr>] NoteManager_new))"
  have sel: "closestNote 0 (roundDouble (303 / 100)) ?s
      = Some (0, 67553994410557 / 2251799813685248)"
    unfolding example_state
    by (simp add: closestNote_def hit_step_def pending_def hit_values window_values)
  have st: "score ?s = 0 \<and> combo ?s = 0 \<and> maxCombo ?s = 0 \<and> judgmentCounts ?s PERFECT = 0"
    unfolding example_state by simp
  have win: "67553994410557 / 2251799813685248 \<le> JUDGMENT_WINDOWS PERFECT"
    by (simp add: window_values)
  show ?thesis
    using sel st win hit_classifies [OF sel] by simp
qed

theorem late_press_resolves_as_hit_witness:
  "activeNotes_valid
       (spawnNotes 1
          (loadChart [\<lparr>chart_track = 0, time = 3\<rparr>, \<lparr>chart_track = 1, time = 3\<rparr>,
                      \<lparr>chart_track = 0, time = 5\<rparr>] NoteManager_new))
   \<and> closestNote 0 (roundDouble (159 / 50))
       (spawnNotes 1
          (loadChart [\<lparr>chart_track = 0, time = 3\<rparr>, \<lparr>chart_track = 1, time = 3\<rparr>,
                      \<lparr>chart_track = 0, time = 5\<rparr>] NoteManager_new)) = Some (0, 405323966463345 / 2251799813685248)
   \<and> JUDGMENT_WINDOWS GOOD < 405323966463345 / 2251799813685248
   \<and> fst (NoteManager_hit 0 (roundDouble (159 / 50))
       (spawnNotes 1
          (loadChart [\<lparr>chart_track = 0, time = 3\<rparr>, \<lparr>chart_track = 1, time = 3\<rparr>,
                      \<lparr>chart_track = 0, time = 5\<rparr>] NoteManager_new))) = Some MISS
   \<and> isHit (notes (snd (NoteManager_hit 0 (roundDouble (159 / 50))
       (spawnNotes 1
          (loadChart [\<lparr>chart_track = 0, time = 3\<rparr>, \<lparr>chart_track = 1, time = 3\<rparr>,
                      \<lparr>chart_track = 0, time = 5\<rparr>] NoteManager_new)))) ! 0)
   \<and> \<not> isMissed (notes (snd (NoteManager_hit 0 (roundDouble (159 / 50))
       (spawnNotes 1
          (loadChart [\<lparr>chart_track = 0, time = 3\<rparr>, \<lparr>chart_track = 1, time = 3\<rparr>,
                      \<lparr>chart_track = 0, time = 5\<rparr>] NoteManager_new)))) ! 0)
   \<and> combo (snd (NoteManager_hit 0 (roundDouble (159 / 50))
       (spawnNotes 1
          (loadChart [\<lparr>chart_track = 0, time = 3\<rparr>, \<lparr>chart_track = 1, time = 3\<rparr>,
                      \<lparr>chart_track = 0, time = 5\<rparr>] NoteManager_new)))) = 0
   \<and> maxCombo (snd (NoteManager_hit 0 (roundDouble (159 / 50))
       (spawnNotes 1
          (loadChart [\<lparr>chart_track = 0, time = 3\<rparr>, \<lparr>chart_track = 1, time = 3\<rparr>,
                      \<lparr>chart_track = 0, time = 5\<rparr>] NoteManager_new)))) = 0
   \<and> score (snd (NoteManager_hit 0 (roundDouble (159 / 50))
       (spawnNotes 1
          (loadChart [\<lparr>chart_track = 0, time = 3\<rparr>, \<lparr>chart_track = 1, time = 3\<rparr>,
                      \<lparr>chart_track = 0, time = 5\<rparr>] NoteManager_new)))) = 0
   \<and> judgmentCounts (snd (NoteManager_hit 0 (roundDouble (159 / 50))
       (spawnNotes 1
          (loadChart [\<lparr>chart_track = 0, time = 3\<rparr>, \<lparr>chart_track = 1, time = 3\<rparr>,
                      \<lparr>chart_track = 0, time = 5\<rparr>] NoteManager_new)))) MISS = 1"
proof -
  let ?s = "(spawnNotes 1
          (loadChart [\<lparr>chart_track = 0, time = 3\<rparr>, \<lparr>chart_track = 1, time = 3\<rparr>,
                      \<lparr>chart_track = 0, time = 5\<rparr>] NoteManager_new))"
  have valid: "activeNotes_valid ?s"
    unfolding example_state by (simp add: activeNotes_valid_def)
  have sel: "closestNote 0 (roundDouble (159 / 50)) ?s
      = Some (0, 405323966463345 / 2251799813685248)"
    unfolding example_state
    by (simp add: closestNote_def hit_step_def pending_def hit_values window_values)
  have late: "JUDGMENT_WINDOWS GOOD < 405323966463345 / 2251799813685248"
    by (simp add: window_values)
  have st: "score ?s = 0 \<and> maxCombo ?s = 0 \<and> judgmentCounts ?s MISS = 0"
    unfolding example_state by simp
  have main: "fst (NoteManager_hit 0 (roundDouble (159 / 50)) ?s) = Some MISS
      \<and> isHit (notes (snd (NoteManager_hit 0 (roundDouble (159 / 50)) ?s)) ! 0)
      \<and> \<not> isMissed (notes (snd (NoteManager_hit 0 (roundDouble (159 / 50)) ?s)) ! 0)
      \<and> combo (snd (NoteManager_hit 0 (roundDouble (159 / 50)) ?s)) = 0
      \<and> maxCombo (snd (NoteManager_hit 0 (roundDouble (159 / 50)) ?s)) = maxCombo ?s
      \<and> score (snd (NoteManager_hit 0 (roundDouble (159 / 50)) ?s)) = score ?s + 0
      \<and> judgmentCounts (snd (NoteManager_hit 0 (roundDouble (159 / 50)) ?s)) MISS
          = judgmentCounts ?s MISS + 1"
    using valid sel late
      late_press_resolves_as_hit [of ?s 0 "roundDouble (159 / 50)" 0
        "405323966463345 / 2251799813685248"]
    by blast
  show ?thesis
    using valid sel late main st by simp
qed

section \<open>The tick: ageing and automatic misses\<close>

lemma fold_list_update_length:
  "length (fold (\<lambda>i ns. ns[i := U (ns ! i)]) xs ns) = length ns"
  by (induction xs arbitrary: ns) simp_all

lemma fold_list_update_holds:
  assumes "\<And>n. P (U n)" and "i < length ns" and "i \<in> set xs \<or> P (ns ! i)"
  shows "P (fold (\<lambda>i ns. ns[i := U (ns ! i)]) xs ns ! i)"
  using assms(2,3)
proof (induction xs arbitrary: ns)
  case Nil
  then show ?case by simp
next
  case (Cons x xs)
  let ?ns = "ns[x := U (ns ! x)]"
  have len: "i < length ?ns"
    using Cons.prems(1) by simp
  have "i \<in> set xs \<or> P (?ns ! i)"
  proof (cases "i = x")
    case True
    then show ?thesis
      using Cons.prems(1) assms(1) by simp
  next
    case False
    then show ?thesis
      using Cons.prems(2) by auto
  qed
  then have "P (fold (\<lambda>i ns. ns[i := U (ns ! i)]) xs ?ns ! i)"
    using len by (intro Cons.IH)
  then show ?case by simp
qed

lemma fold_fixed:
  "\<forall>i \<in> set xs. f i s = s \<Longrightarrow> fold f xs s = s"
  by (induction xs) simp_all

lemma js_sub_swap: "js_sub a b = - js_sub b a"
proof -
  have "a - b = - (b - a)" by simp
  then show ?thesis
    unfolding js_sub_def by (simp only: roundDouble_minus)
qed

lemma Note_update_settled:
  "\<not> (pending (Note_update now dt n) \<and> js_sub now (hitTime (Note_update now dt n)) > JUDGMENT_WINDOWS MISS)"
  using js_sub_swap [of now "hitTime n"]
  by (auto simp add: Note_update_def Note_miss_def pending_def Let_def)

lemma spawnNotes_valid:
  assumes "activeNotes_valid s"
  shows "activeNotes_valid (spawnNotes now s)"
  using assms by (subst spawnNotes_eq) (auto simp add: activeNotes_valid_def)

text \<open>
  Inside \<open>NoteManager.update\<close> the call of \<open>checkAutoMiss\<close> finds nothing to do:
  \<open>note.update\<close> has already marked every overdue active note as missed, by the same
  test, and the \<open>filter\<close> has dropped it from \<open>activeNotes\<close>.
\<close>

lemma checkAutoMiss_after_update:
  assumes "activeNotes_valid s"
  shows "checkAutoMiss now (filterActiveNotes (updateActiveNotes now dt s))
         = filterActiveNotes (updateActiveNotes now dt s)"
proof -
  let ?ns = "fold (\<lambda>i ns. ns[i := Note_update now dt (ns ! i)]) (activeNotes s) (notes s)"
  let ?t = "filterActiveNotes (updateActiveNotes now dt s)"
  have nt: "notes ?t = ?ns"
    by (simp add: filterActiveNotes_def updateActiveNotes_def)
  have act: "set (activeNotes ?t) \<subseteq> set (activeNotes s)"
    by (auto simp add: filterActiveNotes_def updateActiveNotes_def)
  have settled: "\<not> (pending (?ns ! i) \<and> js_sub now (hitTime (?ns ! i)) > JUDGMENT_WINDOWS MISS)"
    if "i \<in> set (activeNotes s)" for i
  proof -
    have len: "i < length (notes s)"
      using assms that by (simp add: activeNotes_valid_def)
    have mem: "i \<in> set (activeNotes s)
        \<or> \<not> (pending (notes s ! i) \<and> js_sub now (hitTime (notes s ! i)) > JUDGMENT_WINDOWS MISS)"
      using that by (rule disjI1)
    show ?thesis
      by (rule fold_list_update_holds
          [where P = "\<lambda>n. \<not> (pending n \<and> js_sub now (hitTime n) > JUDGMENT_WINDOWS MISS)"
            and U = "Note_update now dt", OF Note_update_settled len mem])
  qed
  have "\<forall>i \<in> set (activeNotes ?t). checkAutoMiss_step now i ?t = ?t"
  proof
    fix i
    assume "i \<in> set (activeNotes ?t)"
    with act have "i \<in> set (activeNotes s)" by blast
    from settled [OF this] show "checkAutoMiss_step now i ?t = ?t"
      unfolding checkAutoMiss_step_def nt by (auto simp add: pending_def Let_def)
  qed
  then show ?thesis
    unfolding checkAutoMiss_def by (rule fold_fixed)
qed

lemma NoteManager_update_statistics:
  assumes "activeNotes_valid s"
  shows "score (NoteManager_update now dt s) = score s
    \<and> combo (NoteManager_update now dt s) = combo s
    \<and> maxCombo (NoteManager_update now dt s) = maxCombo s
    \<and> judgmentCounts (NoteManager_update now dt s) = judgmentCounts s"
proof -
  have valid: "activeNotes_valid (spawnNotes now s)"
    using assms by (rule spawnNotes_valid)
  have stats: "score (spawnNotes now s) = score s \<and> combo (spawnNotes now s) = combo s
      \<and> maxCombo (spawnNotes now s) = maxCombo s
      \<and> judgmentCounts (spawnNotes now s) = judgmentCounts s"
    by (subst (1 2 3 4) spawnNotes_eq) simp
  show ?thesis
    unfolding NoteManager_update_def checkAutoMiss_after_update [OF valid]
    using stats by (simp add: filterActiveNotes_def updateActiveNotes_def)
qed

lemma NoteManager_update_eq:
  assumes "activeNotes_valid s"
  shows "NoteManager_update now dt s
         = filterActiveNotes (updateActiveNotes now dt (spawnNotes now s))"
  unfolding NoteManager_update_def
  by (rule checkAutoMiss_after_update) (rule spawnNotes_valid [OF assms])

lemma activeNotes_valid_new: "activeNotes_valid NoteManager_new"
  by (simp add: activeNotes_valid_def NoteManager_new_def)

lemma activeNotes_valid_loadChart:
  "activeNotes_valid s \<Longrightarrow> activeNotes_valid (loadChart ch s)"
  by (simp add: activeNotes_valid_def loadChart_def)

lemma activeNotes_valid_reset: "activeNotes_valid (NoteManager_reset s)"
  by (simp add: activeNotes_valid_def NoteManager_reset_def)

lemma activeNotes_valid_update:
  assumes "activeNotes_valid s"
  shows "activeNotes_valid (NoteManager_update now dt s)"
proof -
  have "activeNotes_valid (spawnNotes now s)"
    using assms by (rule spawnNotes_valid)
  then show ?thesis
    unfolding NoteManager_update_eq [OF assms]
    by (simp add: activeNotes_valid_def filterActiveNotes_def updateActiveNotes_def
        fold_list_update_length)
qed

lemma activeNotes_valid_hit:
  assumes "activeNotes_valid s"
  shows "activeNotes_valid (snd (NoteManager_hit trk now s))"
proof (cases "closestNote trk now s")
  case None
  then show ?thesis
    using assms by (simp add: NoteManager_hit_def)
next
  case (Some p)
  obtain c d where "p = (c, d)" by (cases p)
  with Some have sel: "closestNote trk now s = Some (c, d)" by simp
  show ?thesis
    using assms
    by (simp add: hit_selected [OF sel] activeNotes_valid_def addJudgment_def Let_def)
qed

lemma tick_values:
  "js_add 0 2 = 2"
  "js_sub 1 0 = 1"
  "js_sub 0 1 = - 1"
  "js_sub 1 1 = 0"
  "js_add 1 2 = 3"
  "js_sub 3 1 = 2"
  "js_sub 1 3 = - 2"
  "js_add (33 / 10) 2 = 5967269506265907 / 1125899906842624"
  "js_sub 3 (33 / 10) = - (5404319552844595 / 18014398509481984)"
  "js_sub (33 / 10) 3 = 5404319552844595 / 18014398509481984"
  by (simp_all add: js_add_def js_sub_def roundDouble_minus roundDouble_zero
      roundDouble_up [of _ 50] roundDouble_up [of _ 51] roundDouble_up [of _ 52]
      roundDouble_up [of _ 54] roundHalfEven_def Let_def floor_rat_numeral)

text \<open>
  On its own, one step of \<open>checkAutoMiss\<close> on an overdue pending note marks it missed
  and records the Miss: this is what the tick is written to reach.
\<close>

lemma checkAutoMiss_step_overdue:
  assumes "pending (notes s ! i)" and "js_sub now (hitTime (notes s ! i)) > JUDGMENT_WINDOWS MISS"
    and "i < length (notes s)"
  shows "isMissed (notes (checkAutoMiss_step now i s) ! i)
    \<and> judgmentCounts (checkAutoMiss_step now i s) MISS = judgmentCounts s MISS + 1
    \<and> combo (checkAutoMiss_step now i s) = 0"
  using assms
  by (simp add: checkAutoMiss_step_def pending_def Let_def addJudgment_def Note_miss_def)

text \<open>
  C1 asks that a pending note nobody pressed, once \<open>currentTime - targetTime\<close> exceeds
  0.200 s, becomes missed and that a Miss judgment is recorded: the Miss count goes up and
  the combo returns to 0. The code does the first and not the second. Chart
  \<open>[(0, 1.0), (1, 3.0)]\<close>: a tick at 0 spawns the first note, a press on lane 0 at 1.0 is
  Perfect and makes the combo 1, a tick at 1.0 spawns the second note, and the tick at
  3.3 finds it 0.3 s overdue. After that tick the note is missed, the Miss count is still
  0 and the combo is still 1.
\<close>

theorem autoMiss_without_judgment:
  "isMissed (notes
      (NoteManager_update (33 / 10) (23 / 10)
        (NoteManager_update 1 1
          (snd (NoteManager_hit 0 1
            (NoteManager_update 0 0
              (loadChart [\<lparr>chart_track = 0, time = 1\<rparr>, \<lparr>chart_track = 1, time = 3\<rparr>]
                 NoteManager_new)))))) ! 1)
   \<and> judgmentCounts
      (NoteManager_update (33 / 10) (23 / 10)
        (NoteManager_update 1 1
          (snd (NoteManager_hit 0 1
            (NoteManager_update 0 0
              (loadChart [\<lparr>chart_track = 0, time = 1\<rparr>, \<lparr>chart_track = 1, time = 3\<rparr>]
                 NoteManager_new)))))) MISS = 0
   \<and> combo
      (NoteManager_update (33 / 10) (23 / 10)
        (NoteManager_update 1 1
          (snd (NoteManager_hit 0 1
            (NoteManager_update 0 0
              (loadChart [\<lparr>chart_track = 0, time = 1\<rparr>, \<lparr>chart_track = 1, time = 3\<rparr>]
                 NoteManager_new)))))) = 1"
proof -
  let ?ch = "[\<lparr>chart_track = 0, time = 1\<rparr>, \<lparr>chart_track = 1, time = 3\<rparr>]"
  let ?s1 = "\<lparr>notes = [\<lparr>track = 0, hitTime = 1, isHit = False, isMissed = False\<rparr>],
      activeNotes = [0], chart = ?ch, chartIndex = 1, score = 0, combo = 0, maxCombo = 0,
      judgmentCounts = (\<lambda>j. 0), spawnTime = 2\<rparr>"
  let ?s2 = "\<lparr>notes = [\<lparr>track = 0, hitTime = 1, isHit = True, isMissed = False\<rparr>],
      activeNotes = [0], chart = ?ch, chartIndex = 1, score = 100, combo = 1, maxCombo = 1,
      judgmentCounts = (\<lambda>j. 0)(PERFECT := 1), spawnTime = 2\<rparr>"
  let ?s3 = "\<lparr>notes = [\<lparr>track = 0, hitTime = 1, isHit = True, isMissed = False\<rparr>,
                \<lparr>track = 1, hitTime = 3, isHit = False, isMissed = False\<rparr>],
      activeNotes = [1], chart = ?ch, chartIndex = 2, score = 100, combo = 1, maxCombo = 1,
      judgmentCounts = (\<lambda>j. 0)(PERFECT := 1), spawnTime = 2\<rparr>"
  let ?s4 = "\<lparr>notes = [\<lparr>track = 0, hitTime = 1, isHit = True, isMissed = False\<rparr>,
                \<lparr>track = 1, hitTime = 3, isHit = False, isMissed = True\<rparr>],
      activeNotes = [], chart = ?ch, chartIndex = 2, score = 100, combo = 1, maxCombo = 1,
      judgmentCounts = (\<lambda>j. 0)(PERFECT := 1), spawnTime = 2\<rparr>"
  have s1: "NoteManager_update 0 0 (loadChart ?ch NoteManager_new) = ?s1"
    by (simp add: loadChart_def NoteManager_new_def NoteManager_update_def spawnNotes_eq checkAutoMiss_def
        checkAutoMiss_step_def filterActiveNotes_def updateActiveNotes_def Note_update_def
        Note_miss_def Note_new_def upt_conv_Cons Let_def tick_values window_values)
  have s2: "snd (NoteManager_hit 0 1 ?s1) = ?s2"
    by (simp add: NoteManager_hit_def closestNote_def hit_step_def Note_judge_def Note_hit_def
        addJudgment_def Let_def tick_values window_values)
  have s3: "NoteManager_update 1 1 ?s2 = ?s3"
    by (simp add: NoteManager_update_def spawnNotes_eq checkAutoMiss_def
        checkAutoMiss_step_def filterActiveNotes_def updateActiveNotes_def Note_update_def
        Note_miss_def Note_new_def upt_conv_Cons Let_def tick_values window_values)
  have s4: "NoteManager_update (33 / 10) (23 / 10) ?s3 = ?s4"
    by (simp add: NoteManager_update_def spawnNotes_eq checkAutoMiss_def
        checkAutoMiss_step_def filterActiveNotes_def updateActiveNotes_def Note_update_def
        Note_miss_def Note_new_def upt_conv_Cons Let_def tick_values window_values)
  show ?thesis
    unfolding s1 s2 s3 s4 by simp
qed

end
